theory Spec2Isabelle
  imports Complex_Main
begin

section \<open>The resume document\<close>

text \<open>
  The component \<^verbatim>\<open>ResumeBuilder\<close> of \<^verbatim>\<open>resume_builder_react.jsx\<close> keeps one piece of
  state, \<^verbatim>\<open>data\<close>, an object literal of the shape of \<^verbatim>\<open>defaultData\<close> (lines 27-54).
  Each object literal with fixed keys is a record here. Text fields are strings, the
  \<^verbatim>\<open>id\<close> of an entry is the number that \<^verbatim>\<open>Date.now()\<close> returned (milliseconds, a
  natural number), and \<^verbatim>\<open>template\<close> is a string, as in the source: nothing in the
  source restricts it to the two names the comment on line 53 lists.

  The fields of an experience entry are prefixed \<open>exp_\<close> and those of an education
  entry \<open>ed_\<close> (the source calls them \<^verbatim>\<open>id\<close>, \<^verbatim>\<open>title\<close>, \<^verbatim>\<open>company\<close>, \<^verbatim>\<open>start\<close>,
  \<^verbatim>\<open>end\<close>, \<^verbatim>\<open>description\<close> and \<^verbatim>\<open>id\<close>, \<^verbatim>\<open>degree\<close>, \<^verbatim>\<open>school\<close>, \<^verbatim>\<open>year\<close>).
\<close>

record Personal =
  firstName :: string
  lastName :: string
  title :: string
  email :: string
  phone :: string
  location :: string
  linkedin :: string
  website :: string

record ExperienceEntry =
  exp_id :: nat
  exp_title :: string
  exp_company :: string
  exp_start :: string
  exp_end :: string
  exp_description :: string

record EducationEntry =
  ed_id :: nat
  ed_degree :: string
  ed_school :: string
  ed_year :: string

record ResumeDocument =
  personal :: Personal
  summary :: string
  skills :: "string list"
  experience :: "ExperienceEntry list"
  education :: "EducationEntry list"
  template :: string

text \<open>
  \<^verbatim>\<open>defaultData\<close> (lines 27-54) is built once, when the module is loaded; its two ids
  are \<^verbatim>\<open>Date.now()\<close> and \<^verbatim>\<open>Date.now()+1\<close> at that moment. The clock reading \<open>t0\<close> is
  a parameter.
\<close>

definition defaultExperience :: "nat \<Rightarrow> ExperienceEntry" where
  "defaultExperience t0 =
     \<lparr> exp_id = t0,
       exp_title = ''Associate Product Manager'',
       exp_company = ''TechCorp'',
       exp_start = ''Jan 2021'',
       exp_end = ''Present'',
       exp_description = ''Owned feature lifecycle from discovery to launch. Led A/B tests and improved retention by 12%.'' \<rparr>"

definition defaultEducation :: "nat \<Rightarrow> EducationEntry" where
  "defaultEducation t0 =
     \<lparr> ed_id = t0 + 1,
       ed_degree = ''B.A. Business Administration'',
       ed_school = ''University of Delaware'',
       ed_year = ''2019'' \<rparr>"

definition defaultData :: "nat \<Rightarrow> ResumeDocument" where
  "defaultData t0 =
     \<lparr> personal =
         \<lparr> firstName = ''Jane'',
           lastName = ''Doe'',
           title = ''Product Manager'',
           email = ''jane.doe@example.com'',
           phone = ''(555) 555-5555'',
           location = ''Wilmington, DE'',
           linkedin = ''linkedin.com/in/janedoe'',
           website = ''janedoe.com'' \<rparr>,
       summary = ''Product manager with 5+ years of experience launching customer-focused features and leading cross-functional teams.'',
       skills = [''Product Strategy'', ''Roadmapping'', ''User Research'', ''Stakeholder Management''],
       experience = [defaultExperience t0],
       education = [defaultEducation t0],
       template = ''modern'' \<rparr>"

section \<open>The mutation operations\<close>

text \<open>
  Every operation of the component is \<^verbatim>\<open>setData(prev => ...)\<close>: a function from the
  previous document to the next one, which is what each definition below is. The
  argument \<^verbatim>\<open>field\<close> of \<^verbatim>\<open>setPersonalField\<close>, \<^verbatim>\<open>updateExperience\<close> and
  \<^verbatim>\<open>updateEducation\<close> is a computed key; the form passes the literal names of lines
  146-153, 184-191 and 211-213, which are the constructors of the three types below.
\<close>

datatype personal_field =
  FirstName | LastName | Title | Email | Phone | Location | Linkedin | Website

datatype experience_field = ExpTitle | ExpCompany | ExpStart | ExpEnd | ExpDescription

datatype education_field = EdDegree | EdSchool | EdYear

fun personal_get :: "personal_field \<Rightarrow> Personal \<Rightarrow> string" where
  "personal_get FirstName p = firstName p"
| "personal_get LastName p = lastName p"
| "personal_get Title p = title p"
| "personal_get Email p = email p"
| "personal_get Phone p = phone p"
| "personal_get Location p = location p"
| "personal_get Linkedin p = linkedin p"
| "personal_get Website p = website p"

text \<open>\<^verbatim>\<open>{ ...prev.personal, [field]: value }\<close>\<close>

fun personal_set :: "personal_field \<Rightarrow> string \<Rightarrow> Personal \<Rightarrow> Personal" where
  "personal_set FirstName v p = p\<lparr>firstName := v\<rparr>"
| "personal_set LastName v p = p\<lparr>lastName := v\<rparr>"
| "personal_set Title v p = p\<lparr>title := v\<rparr>"
| "personal_set Email v p = p\<lparr>email := v\<rparr>"
| "personal_set Phone v p = p\<lparr>phone := v\<rparr>"
| "personal_set Location v p = p\<lparr>location := v\<rparr>"
| "personal_set Linkedin v p = p\<lparr>linkedin := v\<rparr>"
| "personal_set Website v p = p\<lparr>website := v\<rparr>"

text \<open>\<^verbatim>\<open>{ ...exp, [field]: value }\<close> and \<^verbatim>\<open>{ ...ed, [field]: value }\<close>\<close>

fun experience_set :: "experience_field \<Rightarrow> string \<Rightarrow> ExperienceEntry \<Rightarrow> ExperienceEntry" where
  "experience_set ExpTitle v e = e\<lparr>exp_title := v\<rparr>"
| "experience_set ExpCompany v e = e\<lparr>exp_company := v\<rparr>"
| "experience_set ExpStart v e = e\<lparr>exp_start := v\<rparr>"
| "experience_set ExpEnd v e = e\<lparr>exp_end := v\<rparr>"
| "experience_set ExpDescription v e = e\<lparr>exp_description := v\<rparr>"

fun education_set :: "education_field \<Rightarrow> string \<Rightarrow> EducationEntry \<Rightarrow> EducationEntry" where
  "education_set EdDegree v e = e\<lparr>ed_degree := v\<rparr>"
| "education_set EdSchool v e = e\<lparr>ed_school := v\<rparr>"
| "education_set EdYear v e = e\<lparr>ed_year := v\<rparr>"

text \<open>Lines 73-78.\<close>

definition setPersonalField :: "personal_field \<Rightarrow> string \<Rightarrow> ResumeDocument \<Rightarrow> ResumeDocument" where
  "setPersonalField field v prev = prev\<lparr>personal := personal_set field v (personal prev)\<rparr>"

definition setSummary :: "string \<Rightarrow> ResumeDocument \<Rightarrow> ResumeDocument" where
  "setSummary v prev = prev\<lparr>summary := v\<rparr>"

definition setTemplate :: "string \<Rightarrow> ResumeDocument \<Rightarrow> ResumeDocument" where
  "setTemplate tpl prev = prev\<lparr>template := tpl\<rparr>"

text \<open>
  Lines 81-87. \<^verbatim>\<open>if (!skill) return;\<close>: of the strings only the empty one is falsy.
  \<^verbatim>\<open>filter((_, i) => i !== index)\<close> keeps the elements at the other positions.
\<close>

definition addSkill :: "string \<Rightarrow> ResumeDocument \<Rightarrow> ResumeDocument" where
  "addSkill skill prev = (if skill = [] then prev else prev\<lparr>skills := skills prev @ [skill]\<rparr>)"

definition removeSkill :: "nat \<Rightarrow> ResumeDocument \<Rightarrow> ResumeDocument" where
  "removeSkill index prev =
     prev\<lparr>skills := map snd (filter (\<lambda>(i, _). i \<noteq> index) (enumerate 0 (skills prev)))\<rparr>"

text \<open>The Clear button of line 166.\<close>

definition clearSkills :: "ResumeDocument \<Rightarrow> ResumeDocument" where
  "clearSkills prev = prev\<lparr>skills := []\<rparr>"

text \<open>
  Lines 90-99. \<open>now\<close> is what \<^verbatim>\<open>Date.now()\<close> returns when \<^verbatim>\<open>addExperience\<close> runs.
\<close>

definition addExperience :: "nat \<Rightarrow> ResumeDocument \<Rightarrow> ResumeDocument" where
  "addExperience now prev =
     (let newExp = \<lparr> exp_id = now, exp_title = [], exp_company = [], exp_start = [],
                      exp_end = [], exp_description = [] \<rparr>
      in prev\<lparr>experience := experience prev @ [newExp]\<rparr>)"

definition updateExperience :: "nat \<Rightarrow> experience_field \<Rightarrow> string \<Rightarrow> ResumeDocument \<Rightarrow> ResumeDocument" where
  "updateExperience i field v prev =
     prev\<lparr>experience := map (\<lambda>ex. if exp_id ex = i then experience_set field v ex else ex)
                              (experience prev)\<rparr>"

definition removeExperience :: "nat \<Rightarrow> ResumeDocument \<Rightarrow> ResumeDocument" where
  "removeExperience i prev = prev\<lparr>experience := filter (\<lambda>e. exp_id e \<noteq> i) (experience prev)\<rparr>"

text \<open>The button "Reset to sample" of line 200.\<close>

definition resetExperienceToSample :: "nat \<Rightarrow> ResumeDocument \<Rightarrow> ResumeDocument" where
  "resetExperienceToSample t0 prev = prev\<lparr>experience := [hd (experience (defaultData t0))]\<rparr>"

text \<open>Lines 102-111.\<close>

definition addEducation :: "nat \<Rightarrow> ResumeDocument \<Rightarrow> ResumeDocument" where
  "addEducation now prev =
     (let newEd = \<lparr> ed_id = now, ed_degree = [], ed_school = [], ed_year = [] \<rparr>
      in prev\<lparr>education := education prev @ [newEd]\<rparr>)"

definition updateEducation :: "nat \<Rightarrow> education_field \<Rightarrow> string \<Rightarrow> ResumeDocument \<Rightarrow> ResumeDocument" where
  "updateEducation i field v prev =
     prev\<lparr>education := map (\<lambda>ed. if ed_id ed = i then education_set field v ed else ed)
                             (education prev)\<rparr>"

definition removeEducation :: "nat \<Rightarrow> ResumeDocument \<Rightarrow> ResumeDocument" where
  "removeEducation i prev = prev\<lparr>education := filter (\<lambda>e. ed_id e \<noteq> i) (education prev)\<rparr>"

text \<open>
  Lines 128-133, the part that acts on the document: \<open>confirmed\<close> is the answer of the
  \<^verbatim>\<open>confirm\<close> dialog.
\<close>

definition resetDraft :: "nat \<Rightarrow> bool \<Rightarrow> ResumeDocument \<Rightarrow> ResumeDocument" where
  "resetDraft t0 confirmed prev = (if confirmed then defaultData t0 else prev)"

text \<open>
  A user session is a sequence of these operations. Operations that read the clock carry
  the reading.
\<close>

datatype mutation =
    SetPersonalField personal_field string
  | SetSummary string
  | SetTemplate string
  | AddSkill string
  | RemoveSkill nat
  | ClearSkills
  | AddExperience nat
  | UpdateExperience nat experience_field string
  | RemoveExperience nat
  | ResetExperienceToSample
  | AddEducation nat
  | UpdateEducation nat education_field string
  | RemoveEducation nat
  | ResetDraft bool

fun apply_mutation :: "nat \<Rightarrow> mutation \<Rightarrow> ResumeDocument \<Rightarrow> ResumeDocument" where
  "apply_mutation t0 (SetPersonalField f v) d = setPersonalField f v d"
| "apply_mutation t0 (SetSummary v) d = setSummary v d"
| "apply_mutation t0 (SetTemplate tpl) d = setTemplate tpl d"
| "apply_mutation t0 (AddSkill s) d = addSkill s d"
| "apply_mutation t0 (RemoveSkill i) d = removeSkill i d"
| "apply_mutation t0 ClearSkills d = clearSkills d"
| "apply_mutation t0 (AddExperience now) d = addExperience now d"
| "apply_mutation t0 (UpdateExperience i f v) d = updateExperience i f v d"
| "apply_mutation t0 (RemoveExperience i) d = removeExperience i d"
| "apply_mutation t0 ResetExperienceToSample d = resetExperienceToSample t0 d"
| "apply_mutation t0 (AddEducation now) d = addEducation now d"
| "apply_mutation t0 (UpdateEducation i f v) d = updateEducation i f v d"
| "apply_mutation t0 (RemoveEducation i) d = removeEducation i d"
| "apply_mutation t0 (ResetDraft c) d = resetDraft t0 c d"

fun run :: "nat \<Rightarrow> mutation list \<Rightarrow> ResumeDocument \<Rightarrow> ResumeDocument" where
  "run t0 [] d = d"
| "run t0 (m # ms) d = run t0 ms (apply_mutation t0 m d)"

section \<open>The preview templates\<close>

text \<open>
  \<^verbatim>\<open>ModernTemplate\<close> (lines 282-351) and \<^verbatim>\<open>ClassicTemplate\<close> (lines 354-408) return
  a tree of elements. An element has a tag, the \<^verbatim>\<open>key\<close> attribute when it has one, its
  \<^verbatim>\<open>className\<close> and its children; a string in the JSX is a text node. The characters
  \<^verbatim>\<open>U+2014\<close> (dash) and \<^verbatim>\<open>U+2022\<close> (bullet) of the JSX are written in UTF-8.
\<close>

datatype vnode =
    Text string
  | Elem string "nat option" string "vnode list"

definition mdash :: string where
  "mdash = '' '' @ [CHR 0xE2, CHR 0x80, CHR 0x94] @ '' ''"

definition bullet :: string where
  "bullet = '' '' @ [CHR 0xE2, CHR 0x80, CHR 0xA2] @ '' ''"

text \<open>The \<^verbatim>\<open>span\<close> of a skill, \<^verbatim>\<open>data.skills.map((s, i) => ...)\<close>, the same in both templates.\<close>

definition SkillTag :: "nat \<times> string \<Rightarrow> vnode" where
  "SkillTag = (\<lambda>(i, s). Elem ''span'' (Some i) ''text-sm px-2 py-1 bg-gray-100 rounded'' [Text s])"

text \<open>The callbacks of \<^verbatim>\<open>data.experience.map\<close> and \<^verbatim>\<open>data.education.map\<close>, lines 312-323 and 330-335.\<close>

definition ModernExperience :: "ExperienceEntry \<Rightarrow> vnode" where
  "ModernExperience ex =
     Elem ''div'' (Some (exp_id ex)) []
       [ Elem ''div'' None ''flex justify-between''
           [ Elem ''div'' None []
               [ Elem ''div'' None ''font-semibold'' [Text (exp_title ex)],
                 Elem ''div'' None ''text-sm text-gray-600'' [Text (exp_company ex)] ],
             Elem ''div'' None ''text-sm text-gray-600''
               [Text (exp_start ex), Text mdash, Text (exp_end ex)] ],
         Elem ''p'' None ''text-sm text-gray-700 mt-1'' [Text (exp_description ex)] ]"

definition EducationItem :: "EducationEntry \<Rightarrow> vnode" where
  "EducationItem ed =
     Elem ''div'' (Some (ed_id ed)) []
       [ Elem ''div'' None ''font-semibold'' [Text (ed_degree ed)],
         Elem ''div'' None ''text-sm text-gray-600''
           [Text (ed_school ed), Text bullet, Text (ed_year ed)] ]"

definition ModernTemplate :: "ResumeDocument \<Rightarrow> vnode" where
  "ModernTemplate data =
     (let p = personal data in
      Elem ''div'' None ''text-gray-900''
        [ Elem ''div'' None ''flex justify-between items-start gap-4''
            [ Elem ''div'' None []
                [ Elem ''h1'' None ''text-3xl font-bold''
                    [Text (firstName p), Text '' '', Text (lastName p)],
                  Elem ''h2'' None ''text-md text-gray-600 mt-1'' [Text (title p)] ],
              Elem ''div'' None ''text-sm text-right''
                [ Elem ''div'' None [] [Text (email p)],
                  Elem ''div'' None [] [Text (phone p)],
                  Elem ''div'' None [] [Text (location p)],
                  Elem ''div'' None ''truncate max-w-[200px]'' [Text (linkedin p)],
                  Elem ''div'' None ''truncate max-w-[200px]'' [Text (website p)] ] ],
          Elem ''hr'' None ''my-4 border-gray-200'' [],
          Elem ''section'' None ''mb-4''
            [ Elem ''h3'' None ''font-semibold'' [Text ''Summary''],
              Elem ''p'' None ''text-sm text-gray-700 mt-2'' [Text (summary data)] ],
          Elem ''div'' None ''grid grid-cols-3 gap-4''
            [ Elem ''div'' None ''col-span-2''
                [ Elem ''section'' None ''mb-4''
                    [ Elem ''h3'' None ''font-semibold'' [Text ''Experience''],
                      Elem ''div'' None ''mt-2 space-y-4''
                        (map ModernExperience (experience data)) ],
                  Elem ''section'' None []
                    [ Elem ''h3'' None ''font-semibold'' [Text ''Education''],
                      Elem ''div'' None ''mt-2 space-y-2''
                        (map EducationItem (education data)) ] ],
              Elem ''aside'' None ''col-span-1''
                [ Elem ''h3'' None ''font-semibold'' [Text ''Skills''],
                  Elem ''div'' None ''mt-2 flex flex-wrap gap-2''
                    (map SkillTag (enumerate 0 (skills data))) ] ] ])"

text \<open>Lines 374-382; the education entries of lines 389-394 are as in the modern template.\<close>

definition ClassicExperience :: "ExperienceEntry \<Rightarrow> vnode" where
  "ClassicExperience ex =
     Elem ''div'' (Some (exp_id ex)) ''flex justify-between''
       [ Elem ''div'' None []
           [ Elem ''div'' None ''font-semibold''
               [ Text (exp_title ex), Text mdash,
                 Elem ''span'' None ''text-gray-600'' [Text (exp_company ex)] ],
             Elem ''div'' None ''text-sm text-gray-700'' [Text (exp_description ex)] ],
         Elem ''div'' None ''text-sm text-gray-600''
           [Text (exp_start ex), Text mdash, Text (exp_end ex)] ]"

definition ClassicTemplate :: "ResumeDocument \<Rightarrow> vnode" where
  "ClassicTemplate data =
     (let p = personal data in
      Elem ''div'' None ''text-gray-900''
        [ Elem ''div'' None ''text-center''
            [ Elem ''h1'' None ''text-3xl font-bold''
                [Text (firstName p), Text '' '', Text (lastName p)],
              Elem ''div'' None ''text-sm text-gray-600''
                [Text (title p), Text bullet, Text (location p)],
              Elem ''div'' None ''text-sm text-gray-600 mt-1''
                [Text (email p), Text bullet, Text (phone p), Text bullet, Text (linkedin p)] ],
          Elem ''hr'' None ''my-4 border-gray-200'' [],
          Elem ''section'' None ''mb-4''
            [ Elem ''h3'' None ''font-semibold'' [Text ''Professional Summary''],
              Elem ''p'' None ''text-sm text-gray-700 mt-2'' [Text (summary data)] ],
          Elem ''section'' None ''mb-4''
            [ Elem ''h3'' None ''font-semibold'' [Text ''Experience''],
              Elem ''div'' None ''mt-2 space-y-3'' (map ClassicExperience (experience data)) ],
          Elem ''section'' None ''mb-4''
            [ Elem ''h3'' None ''font-semibold'' [Text ''Education''],
              Elem ''div'' None ''mt-2 space-y-2'' (map EducationItem (education data)) ],
          Elem ''section'' None []
            [ Elem ''h3'' None ''font-semibold'' [Text ''Skills''],
              Elem ''div'' None ''mt-2 flex flex-wrap gap-2''
                (map SkillTag (enumerate 0 (skills data))) ] ])"

text \<open>The choice of the preview, lines 248-252: whatever is not \<^verbatim>\<open>'modern'\<close> is classic.\<close>

definition render :: "ResumeDocument \<Rightarrow> vnode" where
  "render data = (if template data = ''modern'' then ModernTemplate data else ClassicTemplate data)"

text \<open>
  What a tree shows: its text nodes from first to last, and the keys of its keyed
  elements from first to last.
\<close>

fun texts :: "vnode \<Rightarrow> string list" where
  "texts (Text s) = [s]"
| "texts (Elem tg k cls cs) = concat (map texts cs)"

fun keys :: "vnode \<Rightarrow> nat list" where
  "keys (Text s) = []"
| "keys (Elem tg k cls cs) = (case k of None \<Rightarrow> [] | Some i \<Rightarrow> [i]) @ concat (map keys cs)"

section \<open>The export\<close>

text \<open>
  \<^verbatim>\<open>downloadPDF\<close>, lines 114-125. The preview node (\<^verbatim>\<open>previewRef.current\<close>, which may
  be null), its measuring and its capture by \<^verbatim>\<open>html2canvas\<close> belong to the browser and
  to a library: they are parameters. The capture may reject, and the function has no
  handler for it. What \<^verbatim>\<open>jsPDF\<close> is asked to write is the result: the page format, the
  placed image and the file name. \<^verbatim>\<open>a || b\<close> on strings is \<open>b\<close> when \<open>a\<close> is empty.
\<close>

datatype export_error = CaptureRejected

record 'img pdf_request =
  pdf_format :: "rat \<times> rat"
  pdf_image :: 'img
  pdf_image_box :: "rat \<times> rat \<times> rat \<times> rat"
  pdf_name :: string

definition or_else :: "string \<Rightarrow> string \<Rightarrow> string" where
  "or_else a b = (if a = [] then b else a)"

definition pdf_file_name :: "ResumeDocument \<Rightarrow> string" where
  "pdf_file_name data =
     or_else (firstName (personal data)) ''resume'' @ ''-'' @
     or_else (lastName (personal data)) ''resume'' @ ''.pdf''"

definition downloadPDF ::
  "('node \<Rightarrow> rat \<times> rat) \<Rightarrow> ('node \<Rightarrow> nat \<Rightarrow> export_error + 'img) \<Rightarrow> 'node option \<Rightarrow>
   ResumeDocument \<Rightarrow> export_error + 'img pdf_request option" where
  "downloadPDF getBoundingClientRect html2canvas current data =
     (case current of
        None \<Rightarrow> Inr None
      | Some node \<Rightarrow>
          (let scale = 2; (w, h) = getBoundingClientRect node in
           case html2canvas node scale of
             Inl e \<Rightarrow> Inl e
           | Inr imgData \<Rightarrow>
               Inr (Some \<lparr> pdf_format = (w, h), pdf_image = imgData,
                           pdf_image_box = (0, 0, w, h), pdf_name = pdf_file_name data \<rparr>)))"

section \<open>The draft in localStorage\<close>

subsection \<open>JSON values and \<^verbatim>\<open>JSON.stringify\<close>\<close>

text \<open>
  The draft is kept as JSON text (lines 57-70). \<^verbatim>\<open>JSON.parse\<close> returns whatever value
  the text denotes, so its result is a value of the type \<open>json\<close>, not a document.
  \<^verbatim>\<open>JSON.stringify\<close>, \<^verbatim>\<open>JSON.parse\<close> and \<^verbatim>\<open>localStorage\<close> are the platform's, not the
  repository's; they are modelled after ECMA-262 (\<^verbatim>\<open>SerializeJSONProperty\<close>,
  \<^verbatim>\<open>QuoteJSONString\<close>, the JSON grammar) with these limits:
  \<^item> a number is an exact rational, not a double: rounding, overflow and the exponent
    notation of \<^verbatim>\<open>Number::toString\<close> are not modelled (the program stores integer ids
    only, printed in decimal);
  \<^item> a string is its UTF-8 bytes; an escape \<^verbatim>\<open>\uXXXX\<close> is decoded to the UTF-8 bytes of
    that one code unit, so an escaped surrogate pair is not merged into one character;
  \<^item> an object is the list of its properties in creation order (engines list keys that
    are array indices first; no key of a document is one).
\<close>

datatype json =
    JNull
  | JBool bool
  | JNum rat
  | JStr string
  | JArr "json list"
  | JObj "(string \<times> json) list"

abbreviation dquote :: char where "dquote \<equiv> CHR 0x22"
abbreviation bslash :: char where "bslash \<equiv> CHR 0x5C"

definition digit_char :: "nat \<Rightarrow> char" where
  "digit_char n = char_of (48 + n)"

definition hex_char :: "nat \<Rightarrow> char" where
  "hex_char n = (if n < 10 then char_of (48 + n) else char_of (87 + n))"

fun show_nat :: "nat \<Rightarrow> string" where
  "show_nat n = (if n < 10 then [digit_char n] else show_nat (n div 10) @ [digit_char (n mod 10)])"

declare show_nat.simps [simp del]

fun frac_digits :: "nat \<Rightarrow> nat \<Rightarrow> nat \<Rightarrow> string" where
  "frac_digits 0 r b = []"
| "frac_digits (Suc k) r b =
     (if r = 0 then [] else digit_char (10 * r div b) # frac_digits k (10 * r mod b) b)"

definition number_to_string :: "rat \<Rightarrow> string" where
  "number_to_string r =
     (let (a, b) = quotient_of r; n = nat \<bar>a\<bar>; m = nat b in
      (if a < 0 then ''-'' else []) @ show_nat (n div m) @
      (if n mod m = 0 then [] else ''.'' @ frac_digits 1100 (n mod m) m))"

text \<open>\<^verbatim>\<open>QuoteJSONString\<close>.\<close>

definition quote_char :: "char \<Rightarrow> string" where
  "quote_char c =
     (if c = CHR 0x08 then [bslash, CHR ''b'']
      else if c = CHR 0x09 then [bslash, CHR ''t'']
      else if c = CHR 0x0A then [bslash, CHR ''n'']
      else if c = CHR 0x0C then [bslash, CHR ''f'']
      else if c = CHR 0x0D then [bslash, CHR ''r'']
      else if c = dquote then [bslash, dquote]
      else if c = bslash then [bslash, bslash]
      else if (of_char c :: nat) < 32 then
        [bslash, CHR ''u'', CHR ''0'', CHR ''0'', hex_char (of_char c div 16), hex_char (of_char c mod 16)]
      else [c])"

definition quote :: "string \<Rightarrow> string" where
  "quote s = dquote # concat (map quote_char s) @ [dquote]"

fun join_comma :: "string list \<Rightarrow> string" where
  "join_comma [] = []"
| "join_comma [x] = x"
| "join_comma (x # y # ys) = x @ '','' @ join_comma (y # ys)"

fun JSON_stringify :: "json \<Rightarrow> string" where
  "JSON_stringify JNull = ''null''"
| "JSON_stringify (JBool b) = (if b then ''true'' else ''false'')"
| "JSON_stringify (JNum r) = number_to_string r"
| "JSON_stringify (JStr s) = quote s"
| "JSON_stringify (JArr xs) = ''['' @ join_comma (map JSON_stringify xs) @ '']''"
| "JSON_stringify (JObj ps) =
     ''{'' @ join_comma (map (\<lambda>(k, v). quote k @ '':'' @ JSON_stringify v) ps) @ ''}''"

subsection \<open>\<^verbatim>\<open>JSON.parse\<close>\<close>

definition is_ws :: "char \<Rightarrow> bool" where
  "is_ws c = (c = CHR 0x20 \<or> c = CHR 0x09 \<or> c = CHR 0x0A \<or> c = CHR 0x0D)"

definition skip_ws :: "string \<Rightarrow> string" where
  "skip_ws = dropWhile is_ws"

definition is_digit :: "char \<Rightarrow> bool" where
  "is_digit c = (48 \<le> (of_char c :: nat) \<and> (of_char c :: nat) \<le> 57)"

definition digit_val :: "char \<Rightarrow> nat" where
  "digit_val c = of_char c - 48"

definition hex_val :: "char \<Rightarrow> nat option" where
  "hex_val c =
     (let n = (of_char c :: nat) in
      if 48 \<le> n \<and> n \<le> 57 then Some (n - 48)
      else if 97 \<le> n \<and> n \<le> 102 then Some (n - 87)
      else if 65 \<le> n \<and> n \<le> 70 then Some (n - 55)
      else None)"

definition hex4 :: "char \<Rightarrow> char \<Rightarrow> char \<Rightarrow> char \<Rightarrow> nat option" where
  "hex4 a b c d =
     (case (hex_val a, hex_val b, hex_val c, hex_val d) of
        (Some w, Some x, Some y, Some z) \<Rightarrow> Some (4096 * w + 256 * x + 16 * y + z)
      | _ \<Rightarrow> None)"

definition utf8 :: "nat \<Rightarrow> string" where
  "utf8 n =
     (if n < 128 then [char_of n]
      else if n < 2048 then [char_of (192 + n div 64), char_of (128 + n mod 64)]
      else [char_of (224 + n div 4096), char_of (128 + n div 64 mod 64), char_of (128 + n mod 64)])"

definition unescape :: "char \<Rightarrow> char option" where
  "unescape e =
     (if e = dquote then Some dquote
      else if e = bslash then Some bslash
      else if e = CHR ''/'' then Some (CHR ''/'')
      else if e = CHR ''b'' then Some (CHR 0x08)
      else if e = CHR ''f'' then Some (CHR 0x0C)
      else if e = CHR ''n'' then Some (CHR 0x0A)
      else if e = CHR ''r'' then Some (CHR 0x0D)
      else if e = CHR ''t'' then Some (CHR 0x09)
      else None)"

text \<open>
  The characters of a string after its opening quote, up to the closing one: the string
  and the rest of the text, or \<open>None\<close> where the text is no JSON string.
\<close>

fun parse_chars :: "string \<Rightarrow> (string \<times> string) option" where
  "parse_chars [] = None"
| "parse_chars (c # cs) =
     (if c = dquote then Some ([], cs)
      else if c = bslash then
        (case cs of
           [] \<Rightarrow> None
         | e # es \<Rightarrow>
             if e = CHR ''u'' then
               (case es of
                  h1 # h2 # h3 # h4 # es' \<Rightarrow>
                    (case hex4 h1 h2 h3 h4 of
                       None \<Rightarrow> None
                     | Some n \<Rightarrow> map_option (\<lambda>(s, r). (utf8 n @ s, r)) (parse_chars es'))
                | _ \<Rightarrow> None)
             else
               (case unescape e of
                  None \<Rightarrow> None
                | Some ch \<Rightarrow> map_option (\<lambda>(s, r). (ch # s, r)) (parse_chars es)))
      else if (of_char c :: nat) < 32 then None
      else map_option (\<lambda>(s, r). (c # s, r)) (parse_chars cs))"

text \<open>
  A number: an optional minus, an integer part without a leading zero, an optional
  fraction and an optional exponent.
\<close>

definition nat_of_digits :: "string \<Rightarrow> nat" where
  "nat_of_digits ds = foldl (\<lambda>n c. 10 * n + digit_val c) 0 ds"

definition pow10 :: "int \<Rightarrow> rat" where
  "pow10 e = (if 0 \<le> e then 10 ^ nat e else 1 / 10 ^ nat (- e))"

definition int_part :: "string \<Rightarrow> (string \<times> string) option" where
  "int_part s =
     (case s of
        [] \<Rightarrow> None
      | c # cs \<Rightarrow>
          if c = CHR ''0'' then Some ([c], cs)
          else if is_digit c then Some (takeWhile is_digit s, dropWhile is_digit s)
          else None)"

definition frac_part :: "string \<Rightarrow> (string \<times> string) option" where
  "frac_part s =
     (case s of
        [] \<Rightarrow> Some ([], s)
      | c # cs \<Rightarrow>
          if c = CHR ''.'' then
            (if takeWhile is_digit cs = [] then None
             else Some (takeWhile is_digit cs, dropWhile is_digit cs))
          else Some ([], s))"

definition exp_digits :: "bool \<Rightarrow> string \<Rightarrow> (int \<times> string) option" where
  "exp_digits neg s =
     (if takeWhile is_digit s = [] then None
      else Some ((if neg then - 1 else 1) * int (nat_of_digits (takeWhile is_digit s)),
                 dropWhile is_digit s))"

definition exp_part :: "string \<Rightarrow> (int \<times> string) option" where
  "exp_part s =
     (case s of
        [] \<Rightarrow> Some (0, s)
      | c # cs \<Rightarrow>
          if c = CHR ''e'' \<or> c = CHR ''E'' then
            (case cs of
               [] \<Rightarrow> None
             | g # gs \<Rightarrow>
                 if g = CHR ''+'' then exp_digits False gs
                 else if g = CHR ''-'' then exp_digits True gs
                 else exp_digits False cs)
          else Some (0, s))"

definition parse_number :: "string \<Rightarrow> (rat \<times> string) option" where
  "parse_number s =
     (let neg = (s \<noteq> [] \<and> hd s = CHR ''-''); s1 = (if neg then tl s else s) in
      case int_part s1 of
        None \<Rightarrow> None
      | Some (ds, s2) \<Rightarrow>
          (case frac_part s2 of
             None \<Rightarrow> None
           | Some (fs, s3) \<Rightarrow>
               (case exp_part s3 of
                  None \<Rightarrow> None
                | Some (e, s4) \<Rightarrow>
                    Some ((if neg then - 1 else 1) * of_nat (nat_of_digits (ds @ fs))
                            * pow10 (e - int (length fs)), s4))))"

fun strip_prefix :: "string \<Rightarrow> string \<Rightarrow> string option" where
  "strip_prefix [] s = Some s"
| "strip_prefix (p # ps) [] = None"
| "strip_prefix (p # ps) (c # cs) = (if p = c then strip_prefix ps cs else None)"

text \<open>
  \<^verbatim>\<open>CreateDataProperty\<close> on the object under construction: a key that is there already
  keeps its place and takes the new value.
\<close>

fun put :: "'k \<Rightarrow> 'v \<Rightarrow> ('k \<times> 'v) list \<Rightarrow> ('k \<times> 'v) list" where
  "put k v [] = [(k, v)]"
| "put k v ((k', v') # ps) = (if k' = k then (k, v) # ps else (k', v') # put k v ps)"

text \<open>
  The recursive descent over values, array elements and object members. The first
  argument bounds the number of nested calls; \<open>OutOfFuel\<close> is kept apart from \<open>Fail\<close>
  (a syntax error), and the bound \<open>JSON_parse\<close> passes is never used up
  (\<open>JSON_parse_fuel\<close> below).
\<close>

datatype 'a presult = Done 'a string | Fail | OutOfFuel

fun parse_value :: "nat \<Rightarrow> string \<Rightarrow> json presult"
  and parse_elements :: "nat \<Rightarrow> json list \<Rightarrow> string \<Rightarrow> json presult"
  and parse_members :: "nat \<Rightarrow> (string \<times> json) list \<Rightarrow> string \<Rightarrow> json presult"
where
  "parse_value 0 s = OutOfFuel"
| "parse_value (Suc n) s =
     (case s of
        [] \<Rightarrow> Fail
      | c # cs \<Rightarrow>
          if c = CHR ''{'' then
            (case skip_ws cs of
               [] \<Rightarrow> Fail
             | x # r \<Rightarrow> if x = CHR ''}'' then Done (JObj []) r else parse_members n [] (x # r))
          else if c = CHR ''['' then
            (case skip_ws cs of
               [] \<Rightarrow> Fail
             | x # r \<Rightarrow> if x = CHR '']'' then Done (JArr []) r else parse_elements n [] (x # r))
          else if c = dquote then
            (case parse_chars cs of None \<Rightarrow> Fail | Some (str, r) \<Rightarrow> Done (JStr str) r)
          else if c = CHR ''t'' then
            (case strip_prefix ''true'' s of None \<Rightarrow> Fail | Some r \<Rightarrow> Done (JBool True) r)
          else if c = CHR ''f'' then
            (case strip_prefix ''false'' s of None \<Rightarrow> Fail | Some r \<Rightarrow> Done (JBool False) r)
          else if c = CHR ''n'' then
            (case strip_prefix ''null'' s of None \<Rightarrow> Fail | Some r \<Rightarrow> Done JNull r)
          else
            (case parse_number s of None \<Rightarrow> Fail | Some (x, r) \<Rightarrow> Done (JNum x) r))"
| "parse_elements 0 acc s = OutOfFuel"
| "parse_elements (Suc n) acc s =
     (case parse_value n s of
        Done v r \<Rightarrow>
          (case skip_ws r of
             [] \<Rightarrow> Fail
           | x # r' \<Rightarrow>
               if x = CHR '','' then parse_elements n (acc @ [v]) (skip_ws r')
               else if x = CHR '']'' then Done (JArr (acc @ [v])) r'
               else Fail)
      | Fail \<Rightarrow> Fail
      | OutOfFuel \<Rightarrow> OutOfFuel)"
| "parse_members 0 acc s = OutOfFuel"
| "parse_members (Suc n) acc s =
     (case s of
        [] \<Rightarrow> Fail
      | c # cs \<Rightarrow>
          if c = dquote then
            (case parse_chars cs of
               None \<Rightarrow> Fail
             | Some (k, r) \<Rightarrow>
                 (case skip_ws r of
                    [] \<Rightarrow> Fail
                  | y # r1 \<Rightarrow>
                      if y = CHR '':'' then
                        (case parse_value n (skip_ws r1) of
                           Done v r2 \<Rightarrow>
                             (case skip_ws r2 of
                                [] \<Rightarrow> Fail
                              | x # r3 \<Rightarrow>
                                  if x = CHR '','' then parse_members n (put k v acc) (skip_ws r3)
                                  else if x = CHR ''}'' then Done (JObj (put k v acc)) r3
                                  else Fail)
                         | Fail \<Rightarrow> Fail
                         | OutOfFuel \<Rightarrow> OutOfFuel)
                      else Fail))
          else Fail)"

datatype js_error = SyntaxError | SecurityError | QuotaExceededError

definition JSON_parse :: "string \<Rightarrow> js_error + json" where
  "JSON_parse s =
     (case parse_value (2 * length s + 1) (skip_ws s) of
        Done v r \<Rightarrow> if skip_ws r = [] then Inr v else Inl SyntaxError
      | Fail \<Rightarrow> Inl SyntaxError
      | OutOfFuel \<Rightarrow> Inl SyntaxError)"

subsection \<open>The storage slot, saving and loading\<close>

text \<open>
  \<^verbatim>\<open>localStorage\<close> as the program uses it: \<^verbatim>\<open>getItem\<close>, \<^verbatim>\<open>setItem\<close> and \<^verbatim>\<open>removeItem\<close>
  on string keys and string values. The browser may refuse access to the storage (every
  call raises) and bounds what it holds (\<^verbatim>\<open>setItem\<close> raises when the items would exceed
  the quota).
\<close>

record localStorage =
  available :: bool
  quota :: nat
  items :: "(string \<times> string) list"

definition used :: "(string \<times> string) list \<Rightarrow> nat" where
  "used kvs = sum_list (map (\<lambda>(k, v). length k + length v) kvs)"

definition getItem :: "localStorage \<Rightarrow> string \<Rightarrow> js_error + string option" where
  "getItem st k = (if available st then Inr (map_of (items st) k) else Inl SecurityError)"

definition setItem :: "localStorage \<Rightarrow> string \<Rightarrow> string \<Rightarrow> js_error + localStorage" where
  "setItem st k v =
     (if \<not> available st then Inl SecurityError
      else if quota st < used (put k v (items st)) then Inl QuotaExceededError
      else Inr (st\<lparr>items := put k v (items st)\<rparr>))"

definition removeItem :: "localStorage \<Rightarrow> string \<Rightarrow> js_error + localStorage" where
  "removeItem st k =
     (if available st then Inr (st\<lparr>items := filter (\<lambda>(k', v). k' \<noteq> k) (items st)\<rparr>)
      else Inl SecurityError)"

text \<open>
  The document as the JavaScript value it is: the object literals of lines 27-54, 91 and
  103, whose key order the spreads of the operations keep.
\<close>

definition personal_toJS :: "Personal \<Rightarrow> json" where
  "personal_toJS p =
     JObj [(''firstName'', JStr (firstName p)), (''lastName'', JStr (lastName p)),
           (''title'', JStr (title p)), (''email'', JStr (email p)),
           (''phone'', JStr (phone p)), (''location'', JStr (location p)),
           (''linkedin'', JStr (linkedin p)), (''website'', JStr (website p))]"

definition experience_toJS :: "ExperienceEntry \<Rightarrow> json" where
  "experience_toJS e =
     JObj [(''id'', JNum (of_nat (exp_id e))), (''title'', JStr (exp_title e)),
           (''company'', JStr (exp_company e)), (''start'', JStr (exp_start e)),
           (''end'', JStr (exp_end e)), (''description'', JStr (exp_description e))]"

definition education_toJS :: "EducationEntry \<Rightarrow> json" where
  "education_toJS e =
     JObj [(''id'', JNum (of_nat (ed_id e))), (''degree'', JStr (ed_degree e)),
           (''school'', JStr (ed_school e)), (''year'', JStr (ed_year e))]"

definition toJS :: "ResumeDocument \<Rightarrow> json" where
  "toJS d =
     JObj [(''personal'', personal_toJS (personal d)),
           (''summary'', JStr (summary d)),
           (''skills'', JArr (map JStr (skills d))),
           (''experience'', JArr (map experience_toJS (experience d))),
           (''education'', JArr (map education_toJS (education d))),
           (''template'', JStr (template d))]"

text \<open>
  The effect of lines 68-70, which runs after every change of \<^verbatim>\<open>data\<close> and has no
  handler, and the initial state of lines 57-64. \<^verbatim>\<open>saved ? ... : ...\<close>: \<^verbatim>\<open>null\<close> and the
  empty string are falsy. \<^verbatim>\<open>try { ... } catch (e) { return defaultData; }\<close> turns every
  error of its body into the default document.
\<close>

definition draft_key :: string where
  "draft_key = ''wf_resume_draft''"

definition save :: "ResumeDocument \<Rightarrow> localStorage \<Rightarrow> js_error + localStorage" where
  "save data st = setItem st draft_key (JSON_stringify (toJS data))"

definition load_body :: "nat \<Rightarrow> localStorage \<Rightarrow> js_error + json" where
  "load_body t0 st =
     (case getItem st draft_key of
        Inl e \<Rightarrow> Inl e
      | Inr saved \<Rightarrow>
          (case saved of
             None \<Rightarrow> Inr (toJS (defaultData t0))
           | Some s \<Rightarrow> if s = [] then Inr (toJS (defaultData t0)) else JSON_parse s))"

definition load :: "nat \<Rightarrow> localStorage \<Rightarrow> js_error + json" where
  "load t0 st =
     (case load_body t0 st of
        Inl e \<Rightarrow> Inr (toJS (defaultData t0))
      | Inr v \<Rightarrow> Inr v)"

subsection \<open>Notions for the properties of the codec\<close>

text \<open>
  A parse result \<open>consumes\<close> a text when it is not \<open>OutOfFuel\<close> and what it leaves
  unread is shorter than the text. \<open>num_end r\<close>: a number followed by \<open>r\<close> ends where
  \<open>r\<close> starts. \<open>plain v\<close>: the numbers of \<open>v\<close> are natural numbers and the keys of each
  of its objects are distinct, as in every document.
\<close>

definition consumes :: "string \<Rightarrow> json presult \<Rightarrow> bool" where
  "consumes s res = (case res of Done v r \<Rightarrow> length r < length s | Fail \<Rightarrow> True | OutOfFuel \<Rightarrow> False)"

definition num_end :: "string \<Rightarrow> bool" where
  "num_end r = (case r of [] \<Rightarrow> True
     | c # cs \<Rightarrow> \<not> is_digit c \<and> c \<noteq> CHR ''.'' \<and> c \<noteq> CHR ''e'' \<and> c \<noteq> CHR ''E'')"

fun plain :: "json \<Rightarrow> bool" where
  "plain JNull = True"
| "plain (JBool b) = True"
| "plain (JNum r) = (r = of_nat (nat \<lfloor>r\<rfloor>))"
| "plain (JStr s) = True"
| "plain (JArr xs) = (\<forall>x \<in> set xs. plain x)"
| "plain (JObj ps) = (distinct (map fst ps) \<and> (\<forall>p \<in> set ps. plain (snd p)))"

section \<open>Properties of the mutation operations\<close>

subsection \<open>Identifiers\<close>

text \<open>
  An added entry takes the clock reading as its id, so the ids of a collection stay
  distinct exactly when the reading is not an id of the collection already.
\<close>

lemma addExperience_distinct:
  "distinct (map exp_id (experience (addExperience now d))) =
     (distinct (map exp_id (experience d)) \<and> now \<notin> exp_id ` set (experience d))"
  by (auto simp: addExperience_def)

lemma addEducation_distinct:
  "distinct (map ed_id (education (addEducation now d))) =
     (distinct (map ed_id (education d)) \<and> now \<notin> ed_id ` set (education d))"
  by (auto simp: addEducation_def)

text \<open>
  C1. The claim: after any sequence of operations on the default document the ids of
  the experience entries are pairwise distinct, and so are those of the education
  entries. The code takes ids from the clock: two calls of \<^verbatim>\<open>addExperience\<close> at the same
  reading (5000 here, in a module loaded at 1000) leave two entries with the id 5000,
  and \<^verbatim>\<open>addEducation\<close> one millisecond after the module was loaded repeats the id
  \<^verbatim>\<open>Date.now()+1\<close> of the default education entry.
\<close>

theorem same_tick_duplicate_ids:
  "map exp_id (experience (run 1000 [AddExperience 5000, AddExperience 5000] (defaultData 1000)))
     = [1000, 5000, 5000]
   \<and> \<not> distinct (map exp_id
         (experience (run 1000 [AddExperience 5000, AddExperience 5000] (defaultData 1000))))
   \<and> map ed_id (education (run 1000 [AddEducation 1001] (defaultData 1000))) = [1001, 1001]
   \<and> \<not> distinct (map ed_id (education (run 1000 [AddEducation 1001] (defaultData 1000))))"
  by (simp add: addExperience_def addEducation_def defaultData_def defaultExperience_def
      defaultEducation_def)

subsection \<open>The template selector\<close>

text \<open>
  C2, as claimed: \<^verbatim>\<open>setTemplate\<close> with a value that is neither \<^verbatim>\<open>'modern'\<close> nor
  \<^verbatim>\<open>'classic'\<close> leaves the document unchanged. It does not: \<^verbatim>\<open>setTemplate("bogus")\<close> on
  the default document stores \<^verbatim>\<open>"bogus"\<close>.
\<close>

theorem setTemplate_bogus_counterexample:
  "template (setTemplate ''bogus'' (defaultData 0)) = ''bogus''
   \<and> template (defaultData 0) = ''modern''
   \<and> setTemplate ''bogus'' (defaultData 0) \<noteq> defaultData 0"
proof -
  have t: "template (setTemplate ''bogus'' (defaultData 0)) = ''bogus''"
    by (simp add: setTemplate_def)
  have m: "template (defaultData 0) = ''modern''"
    by (simp add: defaultData_def)
  from t m have "template (setTemplate ''bogus'' (defaultData 0)) \<noteq> template (defaultData 0)"
    by simp
  then have "setTemplate ''bogus'' (defaultData 0) \<noteq> defaultData 0"
    by auto
  with t m show ?thesis by simp
qed

text \<open>
  C2, amended: \<^verbatim>\<open>setTemplate\<close> stores the value it is given, whatever it is, and leaves
  every other field as it was; the document is unchanged only when the value is the
  template it had.
\<close>

theorem setTemplate_stores_any_value:
  "template (setTemplate tpl d) = tpl
   \<and> personal (setTemplate tpl d) = personal d
   \<and> summary (setTemplate tpl d) = summary d
   \<and> skills (setTemplate tpl d) = skills d
   \<and> experience (setTemplate tpl d) = experience d
   \<and> education (setTemplate tpl d) = education d
   \<and> (setTemplate tpl d = d) = (tpl = template d)"
proof -
  have "(d\<lparr>template := tpl\<rparr> = d) = (tpl = template d)"
    by (cases d) auto
  then show ?thesis
    by (simp add: setTemplate_def)
qed

subsection \<open>Skills\<close>

text \<open>
  C3, as claimed: \<^verbatim>\<open>addSkill\<close> on a string of spaces leaves \<^verbatim>\<open>skills\<close> unchanged. It
  does not: the guard \<^verbatim>\<open>if (!skill) return;\<close> stops the empty string only, and three
  spaces are appended as a skill.
\<close>

theorem addSkill_whitespace_counterexample:
  "skills (addSkill ''   '' (defaultData 0)) = skills (defaultData 0) @ [''   '']
   \<and> skills (addSkill ''   '' (defaultData 0)) \<noteq> skills (defaultData 0)"
  by (simp add: addSkill_def)

text \<open>
  C3, amended: \<^verbatim>\<open>addSkill\<close> on the empty string leaves the document unchanged; on every
  other string, one of white space only included, it appends the string to the end of
  \<^verbatim>\<open>skills\<close> and changes nothing else.
\<close>

theorem addSkill_empty_or_append:
  "addSkill [] d = d
   \<and> addSkill (c # cs) d = d\<lparr>skills := skills d @ [c # cs]\<rparr>
   \<and> personal (addSkill (c # cs) d) = personal d
   \<and> summary (addSkill (c # cs) d) = summary d
   \<and> experience (addSkill (c # cs) d) = experience d
   \<and> education (addSkill (c # cs) d) = education d
   \<and> template (addSkill (c # cs) d) = template d"
  unfolding addSkill_def by simp

theorem addSkill_empty_or_append_witness:
  "addSkill [] (defaultData 0) = defaultData 0
   \<and> skills (addSkill ''   '' (defaultData 0)) =
       [''Product Strategy'', ''Roadmapping'', ''User Research'', ''Stakeholder Management'', ''   '']"
  using addSkill_empty_or_append [of "defaultData 0" "CHR '' ''" "''  ''"]
  by (simp add: defaultData_def)

subsection \<open>Personal fields\<close>

text \<open>
  C9. \<^verbatim>\<open>setPersonalField(field, value)\<close> replaces that one field of \<^verbatim>\<open>personal\<close>: the
  field reads \<open>value\<close> afterwards, every other personal field reads what it read before,
  and \<^verbatim>\<open>summary\<close>, \<^verbatim>\<open>skills\<close>, \<^verbatim>\<open>experience\<close>, \<^verbatim>\<open>education\<close> and \<^verbatim>\<open>template\<close> are unchanged.
\<close>

theorem setPersonalField_frame:
  "personal_get f (personal (setPersonalField f v d)) = v
   \<and> (\<forall>g. g \<noteq> f \<longrightarrow>
         personal_get g (personal (setPersonalField f v d)) = personal_get g (personal d))
   \<and> summary (setPersonalField f v d) = summary d
   \<and> skills (setPersonalField f v d) = skills d
   \<and> experience (setPersonalField f v d) = experience d
   \<and> education (setPersonalField f v d) = education d
   \<and> template (setPersonalField f v d) = template d"
proof -
  have same: "personal_get f (personal_set f v p) = v" for p
    by (cases f) simp_all
  have other: "personal_get g (personal_set f v p) = personal_get g p" if "g \<noteq> f" for g p
    using that by (cases f; cases g) simp_all
  show ?thesis
    by (simp add: setPersonalField_def same other)
qed

theorem setPersonalField_frame_witness:
  "personal_get Email (personal (setPersonalField Email ''j@d.org'' (defaultData 0))) = ''j@d.org''
   \<and> personal_get Phone (personal (setPersonalField Email ''j@d.org'' (defaultData 0))) = ''(555) 555-5555''
   \<and> summary (setPersonalField Email ''j@d.org'' (defaultData 0)) = summary (defaultData 0)"
proof -
  have ne: "Phone \<noteq> Email" by simp
  have "personal_get Phone (personal (defaultData 0)) = ''(555) 555-5555''"
    by (simp add: defaultData_def)
  with ne setPersonalField_frame [of Email "''j@d.org''" "defaultData 0"] show ?thesis
    by metis
qed

subsection \<open>Removing and updating entries\<close>

lemma update_after_filter:
  "map (\<lambda>x. if key x = i then g x else x) (filter (\<lambda>x. key x \<noteq> i) xs) = filter (\<lambda>x. key x \<noteq> i) xs"
  by (induction xs) simp_all

lemma filter_count:
  "length (filter (\<lambda>x. key x \<noteq> i) xs) + count_list (map key xs) i = length xs"
  by (induction xs) auto

text \<open>
  C7. \<^verbatim>\<open>removeExperience(id)\<close> followed by \<^verbatim>\<open>updateExperience(id, field, value)\<close> is
  \<^verbatim>\<open>removeExperience(id)\<close> alone: no entry has the id any more, so the update changes
  nothing.
\<close>

theorem removeExperience_then_updateExperience:
  "updateExperience i field v (removeExperience i d) = removeExperience i d"
  by (simp add: updateExperience_def removeExperience_def update_after_filter)

theorem removeExperience_then_updateExperience_witness:
  "updateExperience 0 ExpTitle ''Director'' (removeExperience 0 (defaultData 0))
     = (defaultData 0)\<lparr>experience := []\<rparr>"
  using removeExperience_then_updateExperience [of 0 ExpTitle "''Director''" "defaultData 0"]
  by (simp add: removeExperience_def defaultData_def defaultExperience_def)

text \<open>
  C10. \<^verbatim>\<open>removeExperience(id)\<close> and \<^verbatim>\<open>removeEducation(id)\<close> remove every entry with
  that id: none is left, the number of entries drops by the number of entries that had
  the id (all the duplicates, not the first one only), and the entries with another id
  stay, in their order.
\<close>

theorem remove_deletes_all_duplicates:
  "i \<notin> set (map exp_id (experience (removeExperience i d)))
   \<and> length (experience (removeExperience i d)) + count_list (map exp_id (experience d)) i
       = length (experience d)
   \<and> filter (\<lambda>e. exp_id e \<noteq> i) (experience (removeExperience i d))
       = filter (\<lambda>e. exp_id e \<noteq> i) (experience d)
   \<and> j \<notin> set (map ed_id (education (removeEducation j d)))
   \<and> length (education (removeEducation j d)) + count_list (map ed_id (education d)) j
       = length (education d)
   \<and> filter (\<lambda>e. ed_id e \<noteq> j) (education (removeEducation j d))
       = filter (\<lambda>e. ed_id e \<noteq> j) (education d)"
proof -
  have "i \<notin> set (map exp_id (experience (removeExperience i d)))"
    and "j \<notin> set (map ed_id (education (removeEducation j d)))"
    by (auto simp: removeExperience_def removeEducation_def)
  moreover have
    "length (experience (removeExperience i d)) + count_list (map exp_id (experience d)) i
       = length (experience d)"
    by (simp add: removeExperience_def filter_count)
  moreover have
    "length (education (removeEducation j d)) + count_list (map ed_id (education d)) j
       = length (education d)"
    by (simp add: removeEducation_def filter_count)
  ultimately show ?thesis
    by (simp add: removeExperience_def removeEducation_def)
qed

theorem remove_deletes_all_duplicates_witness:
  "map exp_id (experience (run 0 [AddExperience 7, AddExperience 7] (defaultData 0))) = [0, 7, 7]
   \<and> map exp_id (experience
         (removeExperience 7 (run 0 [AddExperience 7, AddExperience 7] (defaultData 0)))) = [0]"
proof -
  let ?d = "run 0 [AddExperience 7, AddExperience 7] (defaultData 0)"
  have ids: "map exp_id (experience ?d) = [0, 7, 7]"
    by (simp add: addExperience_def defaultData_def defaultExperience_def)
  have "filter (\<lambda>e. exp_id e \<noteq> 7) (experience (removeExperience 7 ?d))
          = filter (\<lambda>e. exp_id e \<noteq> 7) (experience ?d)"
    and "7 \<notin> set (map exp_id (experience (removeExperience 7 ?d)))"
    using remove_deletes_all_duplicates [of 7 ?d] by blast+
  then have "experience (removeExperience 7 ?d) = filter (\<lambda>e. exp_id e \<noteq> 7) (experience ?d)"
    by (simp add: removeExperience_def)
  then have "map exp_id (experience (removeExperience 7 ?d)) = filter (\<lambda>n. n \<noteq> 7) (map exp_id (experience ?d))"
    by (simp add: filter_map comp_def)
  with ids show ?thesis by simp
qed

section \<open>Properties of the templates and of the export\<close>

lemma texts_SkillTag: "concat (map (\<lambda>x. texts (SkillTag x)) (enumerate n xs)) = xs"
  by (induction xs arbitrary: n) (simp_all add: SkillTag_def)

lemma keys_SkillTag:
  "concat (map (\<lambda>x. keys (SkillTag x)) (enumerate n xs)) = [n..<n + length xs]"
  by (induction xs arbitrary: n) (simp_all add: SkillTag_def upt_rec)

lemma keys_ModernExperience: "concat (map (\<lambda>e. keys (ModernExperience e)) xs) = map exp_id xs"
  by (induction xs) (simp_all add: ModernExperience_def)

lemma keys_ClassicExperience: "concat (map (\<lambda>e. keys (ClassicExperience e)) xs) = map exp_id xs"
  by (induction xs) (simp_all add: ClassicExperience_def)

lemma keys_EducationItem: "concat (map (\<lambda>e. keys (EducationItem e)) ys) = map ed_id ys"
  by (induction ys) (simp_all add: EducationItem_def)

text \<open>
  C6. Each template shows every experience entry and every education entry, in the
  stored order: the text of the modern tree is the header, the summary, the heading
  \<^verbatim>\<open>Experience\<close>, then for each experience entry in order its title, company, dates and
  description, the heading \<^verbatim>\<open>Education\<close>, then for each education entry in order its
  degree, school and year, and the skills; the classic tree has the same sections with
  its own header and its own order of the fields of an entry. The keyed elements of
  either tree are the entries, by id, in the stored order, then the skills. With no
  entries the two lists of a section are empty and only its heading is left. The
  templates are functions of \<^verbatim>\<open>data\<close> that assign to nothing; the tree is all they
  return.
\<close>

theorem templates_show_entries_in_order:
  "texts (ModernTemplate d) =
     [firstName (personal d), '' '', lastName (personal d), title (personal d),
      email (personal d), phone (personal d), location (personal d),
      linkedin (personal d), website (personal d), ''Summary'', summary d, ''Experience'']
     @ concat (map (\<lambda>e. [exp_title e, exp_company e, exp_start e, mdash, exp_end e,
                           exp_description e]) (experience d))
     @ [''Education'']
     @ concat (map (\<lambda>e. [ed_degree e, ed_school e, bullet, ed_year e]) (education d))
     @ [''Skills''] @ skills d
   \<and> texts (ClassicTemplate d) =
     [firstName (personal d), '' '', lastName (personal d), title (personal d), bullet,
      location (personal d), email (personal d), bullet, phone (personal d), bullet,
      linkedin (personal d), ''Professional Summary'', summary d, ''Experience'']
     @ concat (map (\<lambda>e. [exp_title e, mdash, exp_company e, exp_description e, exp_start e,
                           mdash, exp_end e]) (experience d))
     @ [''Education'']
     @ concat (map (\<lambda>e. [ed_degree e, ed_school e, bullet, ed_year e]) (education d))
     @ [''Skills''] @ skills d
   \<and> keys (ModernTemplate d) =
     map exp_id (experience d) @ map ed_id (education d) @ [0..<length (skills d)]
   \<and> keys (ClassicTemplate d) =
     map exp_id (experience d) @ map ed_id (education d) @ [0..<length (skills d)]"
proof (intro conjI)
  show "texts (ModernTemplate d) =
     [firstName (personal d), '' '', lastName (personal d), title (personal d),
      email (personal d), phone (personal d), location (personal d),
      linkedin (personal d), website (personal d), ''Summary'', summary d, ''Experience'']
     @ concat (map (\<lambda>e. [exp_title e, exp_company e, exp_start e, mdash, exp_end e,
                           exp_description e]) (experience d))
     @ [''Education'']
     @ concat (map (\<lambda>e. [ed_degree e, ed_school e, bullet, ed_year e]) (education d))
     @ [''Skills''] @ skills d"
    by (simp add: ModernTemplate_def Let_def comp_def ModernExperience_def EducationItem_def
        texts_SkillTag)
  show "texts (ClassicTemplate d) =
     [firstName (personal d), '' '', lastName (personal d), title (personal d), bullet,
      location (personal d), email (personal d), bullet, phone (personal d), bullet,
      linkedin (personal d), ''Professional Summary'', summary d, ''Experience'']
     @ concat (map (\<lambda>e. [exp_title e, mdash, exp_company e, exp_description e, exp_start e,
                           mdash, exp_end e]) (experience d))
     @ [''Education'']
     @ concat (map (\<lambda>e. [ed_degree e, ed_school e, bullet, ed_year e]) (education d))
     @ [''Skills''] @ skills d"
    by (simp add: ClassicTemplate_def Let_def comp_def ClassicExperience_def EducationItem_def
        texts_SkillTag)
  show "keys (ModernTemplate d) =
     map exp_id (experience d) @ map ed_id (education d) @ [0..<length (skills d)]"
    by (simp add: ModernTemplate_def Let_def comp_def keys_ModernExperience keys_EducationItem
        keys_SkillTag)
  show "keys (ClassicTemplate d) =
     map exp_id (experience d) @ map ed_id (education d) @ [0..<length (skills d)]"
    by (simp add: ClassicTemplate_def Let_def comp_def keys_ClassicExperience keys_EducationItem
        keys_SkillTag)
qed

text \<open>
  The default document without its entries and skills: each of the three sections is
  its heading and nothing else, in both templates.
\<close>

theorem templates_show_entries_in_order_witness:
  "texts (ModernTemplate ((defaultData 0)\<lparr>skills := [], experience := [], education := []\<rparr>)) =
     [''Jane'', '' '', ''Doe'', ''Product Manager'', ''jane.doe@example.com'', ''(555) 555-5555'',
      ''Wilmington, DE'', ''linkedin.com/in/janedoe'', ''janedoe.com'', ''Summary'',
      ''Product manager with 5+ years of experience launching customer-focused features and leading cross-functional teams.'',
      ''Experience'', ''Education'', ''Skills'']
   \<and> keys (ModernTemplate ((defaultData 0)\<lparr>skills := [], experience := [], education := []\<rparr>)) = []
   \<and> keys (ClassicTemplate ((defaultData 0)\<lparr>skills := [], experience := [], education := []\<rparr>)) = []
   \<and> keys (ModernTemplate (defaultData 0)) = [0, 1, 0, 1, 2, 3]"
  using templates_show_entries_in_order
    [of "(defaultData 0)\<lparr>skills := [], experience := [], education := []\<rparr>"]
    templates_show_entries_in_order [of "defaultData 0"]
  by (simp add: defaultData_def defaultExperience_def defaultEducation_def upt_rec)

text \<open>
  C8. A file that \<^verbatim>\<open>downloadPDF\<close> saves is named first name, \<^verbatim>\<open>-\<close>, last name,
  \<^verbatim>\<open>.pdf\<close>, with \<^verbatim>\<open>resume\<close> in the place of a name that is empty.
\<close>

theorem export_file_name:
  assumes "downloadPDF getBoundingClientRect html2canvas current d = Inr (Some f)"
  shows "pdf_name f =
           (if firstName (personal d) = [] then ''resume'' else firstName (personal d)) @ ''-'' @
           (if lastName (personal d) = [] then ''resume'' else lastName (personal d)) @ ''.pdf''"
proof (cases current)
  case None
  with assms show ?thesis by (simp add: downloadPDF_def)
next
  case (Some node)
  obtain w h where rect: "getBoundingClientRect node = (w, h)"
    by (cases "getBoundingClientRect node")
  from assms Some rect have "pdf_name f = pdf_file_name d"
    by (auto simp: downloadPDF_def split: sum.splits)
  then show ?thesis
    by (simp add: pdf_file_name_def or_else_def)
qed

theorem export_file_name_witness:
  "downloadPDF (\<lambda>u::unit. (850, 1100)) (\<lambda>u scale. Inr ''png'') (Some ())
       (setPersonalField LastName [] (setPersonalField FirstName [] (defaultData 0)))
     = Inr (Some \<lparr> pdf_format = (850, 1100), pdf_image = ''png'',
                   pdf_image_box = (0, 0, 850, 1100), pdf_name = ''resume-resume.pdf'' \<rparr>)
   \<and> pdf_file_name (defaultData 0) = ''Jane-Doe.pdf''"
proof -
  let ?d = "setPersonalField LastName [] (setPersonalField FirstName [] (defaultData 0))"
  let ?f = "\<lparr> pdf_format = (850, 1100), pdf_image = ''png'',
              pdf_image_box = (0, 0, 850, 1100), pdf_name = pdf_file_name ?d \<rparr>"
  have run: "downloadPDF (\<lambda>u::unit. (850, 1100)) (\<lambda>u scale. Inr ''png'') (Some ()) ?d = Inr (Some ?f)"
    by (simp add: downloadPDF_def)
  have "firstName (personal ?d) = []" and "lastName (personal ?d) = []"
    by (simp_all add: setPersonalField_def)
  with export_file_name [OF run] have "pdf_file_name ?d = ''resume-resume.pdf''"
    by simp
  with run show ?thesis
    by (simp add: pdf_file_name_def or_else_def defaultData_def)
qed

section \<open>Properties of the JSON codec\<close>

subsection \<open>The parser consumes its input and never runs out of fuel\<close>

lemma map_option_pair_rest:
  "map_option (\<lambda>(s, r). (f s, r)) x = Some (str, r) \<Longrightarrow> \<exists>s'. x = Some (s', r)"
  by (cases x) auto

lemma parse_chars_shorter: "parse_chars s = Some (str, r) \<Longrightarrow> length r < length s"
proof (induction s arbitrary: str r rule: length_induct)
  case (1 s)
  have IH: "length r < length ys" if "length ys < length s" "parse_chars ys = Some (x, r)" for ys x
    using 1(1) that by blast
  show ?case
  proof (cases s)
    case Nil
    with 1(2) show ?thesis by simp
  next
    case (Cons c cs)
    show ?thesis
    proof (cases "c = dquote")
      case True
      with 1(2) Cons show ?thesis by simp
    next
      case nq: False
      show ?thesis
      proof (cases "c = bslash")
        case False
        with nq 1(2) Cons have "\<exists>s'. parse_chars cs = Some (s', r)"
          by (intro map_option_pair_rest [where f = "(#) c"]) (simp split: if_splits)
        with IH [of cs] Cons show ?thesis by auto
      next
        case bs: True
        then obtain e es where cs: "cs = e # es"
          using 1(2) Cons by (cases cs) simp_all
        show ?thesis
        proof (cases "e = CHR ''u''")
          case False
          with bs cs 1(2) Cons obtain ch where "unescape e = Some ch"
            and "map_option (\<lambda>(s, r). (ch # s, r)) (parse_chars es) = Some (str, r)"
            by (cases "unescape e") simp_all
          then have "\<exists>s'. parse_chars es = Some (s', r)"
            by (intro map_option_pair_rest [where f = "(#) ch"])
          with IH [of es] Cons cs show ?thesis by auto
        next
          case True
          with bs cs 1(2) Cons obtain h1 h2 h3 h4 es' where es: "es = h1 # h2 # h3 # h4 # es'"
            by (simp split: list.splits)
          with True bs cs 1(2) Cons obtain n where "hex4 h1 h2 h3 h4 = Some n"
            and "map_option (\<lambda>(s, r). (utf8 n @ s, r)) (parse_chars es') = Some (str, r)"
            by (cases "hex4 h1 h2 h3 h4") simp_all
          then have "\<exists>s'. parse_chars es' = Some (s', r)"
            by (intro map_option_pair_rest [where f = "(@) (utf8 n)"])
          with IH [of es'] Cons cs es show ?thesis by auto
        qed
      qed
    qed
  qed
qed


lemma skip_ws_length: "length (skip_ws s) \<le> length s"
  by (simp add: skip_ws_def length_dropWhile_le)

lemma strip_prefix_length: "strip_prefix p s = Some r \<Longrightarrow> length r + length p = length s"
  by (induction p s rule: strip_prefix.induct) (auto split: if_splits)

lemma int_part_shorter: "int_part s = Some (ds, r) \<Longrightarrow> length r < length s"
  by (auto simp: int_part_def split: list.splits if_splits intro: le_imp_less_Suc length_dropWhile_le)

lemma frac_part_shorter: "frac_part s = Some (ds, r) \<Longrightarrow> length r \<le> length s"
  by (auto simp: frac_part_def split: list.splits if_splits intro: le_SucI length_dropWhile_le)

lemma exp_part_shorter: "exp_part s = Some (e, r) \<Longrightarrow> length r \<le> length s"
  by (auto simp: exp_part_def exp_digits_def split: list.splits if_splits intro: le_SucI length_dropWhile_le)

lemma parse_number_shorter: "parse_number s = Some (x, r) \<Longrightarrow> length r < length s"
  apply (auto simp: parse_number_def Let_def split: option.splits if_splits dest!: int_part_shorter frac_part_shorter exp_part_shorter)
  apply (cases s; simp)
  done

lemma consumes_simps [simp]:
  "consumes s Fail" "\<not> consumes s OutOfFuel" "consumes s (Done v r) = (length r < length s)"
  by (simp_all add: consumes_def)

lemma consumes_mono: "consumes s' res \<Longrightarrow> length s' \<le> length s \<Longrightarrow> consumes s res"
  by (cases res) (simp_all add: consumes_def)

lemma skip_ws_Cons_length: "skip_ws s = x # r \<Longrightarrow> length r < length s"
  using skip_ws_length [of s] by simp

lemma parse_fuel:
  "(\<forall>s. 2 * length s < n \<longrightarrow> consumes s (parse_value n s))
   \<and> (\<forall>acc s. 2 * length s + 1 < n \<longrightarrow> consumes s (parse_elements n acc s))
   \<and> (\<forall>acc s. 2 * length s + 1 < n \<longrightarrow> consumes s (parse_members n acc s))"
proof (induction n)
  case 0
  show ?case by simp
next
  case (Suc m)
  note IH = this
  have V: "consumes s (parse_value m s)" if "2 * length s < m" for s
    using IH that by blast
  have E: "consumes s (parse_elements m acc s)" if "2 * length s + 1 < m" for acc s
    using IH that by blast
  have M: "consumes s (parse_members m acc s)" if "2 * length s + 1 < m" for acc s
    using IH that by blast
  have val: "consumes s (parse_value (Suc m) s)" if fuel: "2 * length s < Suc m" for s
  proof (cases s)
    case Nil
    then show ?thesis by simp
  next
    case (Cons c cs)
    have sub: "consumes s (parse_members m [] (x # r))" "consumes s (parse_elements m [] (x # r))"
      if "skip_ws cs = x # r" for x r
    proof -
      from that have len: "length (x # r) \<le> length cs"
        using skip_ws_length [of cs] by simp
      with fuel Cons have "2 * length (x # r) + 1 < m" by simp
      note f = this
      from len Cons have le: "length (x # r) \<le> length s" by simp
      show "consumes s (parse_members m [] (x # r))"
        by (rule consumes_mono [OF M [OF f] le])
      show "consumes s (parse_elements m [] (x # r))"
        by (rule consumes_mono [OF E [OF f] le])
    qed
    have obj: "consumes s (case skip_ws cs of [] \<Rightarrow> Fail
                 | x # r \<Rightarrow> if x = CHR ''}'' then Done (JObj []) r else parse_members m [] (x # r))"
    proof (cases "skip_ws cs")
      case Nil
      then show ?thesis by simp
    next
      case (Cons x r)
      with sub(1) [OF Cons] skip_ws_Cons_length [OF Cons] \<open>s = c # cs\<close> show ?thesis by simp
    qed
    have arr: "consumes s (case skip_ws cs of [] \<Rightarrow> Fail
                 | x # r \<Rightarrow> if x = CHR '']'' then Done (JArr []) r else parse_elements m [] (x # r))"
    proof (cases "skip_ws cs")
      case Nil
      then show ?thesis by simp
    next
      case (Cons x r)
      with sub(2) [OF Cons] skip_ws_Cons_length [OF Cons] \<open>s = c # cs\<close> show ?thesis by simp
    qed
    have str: "consumes s (case parse_chars cs of None \<Rightarrow> Fail | Some (str, r) \<Rightarrow> Done (JStr str) r)"
      using Cons by (auto split: option.split dest: parse_chars_shorter)
    have lit: "consumes s (case strip_prefix p s of None \<Rightarrow> Fail | Some r \<Rightarrow> Done v r)"
      if "p \<noteq> []" for p v
    proof (cases "strip_prefix p s")
      case None
      then show ?thesis by simp
    next
      case (Some r)
      from strip_prefix_length [OF Some] that have "length r < length s"
        by (cases p) simp_all
      with Some show ?thesis by simp
    qed
    have num: "consumes s (case parse_number s of None \<Rightarrow> Fail | Some (x, r) \<Rightarrow> Done (JNum x) r)"
      by (auto split: option.split dest: parse_number_shorter)
    have t: "consumes s (case strip_prefix ''true'' s of None \<Rightarrow> Fail | Some r \<Rightarrow> Done (JBool True) r)"
      and f: "consumes s (case strip_prefix ''false'' s of None \<Rightarrow> Fail | Some r \<Rightarrow> Done (JBool False) r)"
      and n: "consumes s (case strip_prefix ''null'' s of None \<Rightarrow> Fail | Some r \<Rightarrow> Done JNull r)"
      by (rule lit, simp)+
    have eq: "parse_value (Suc m) s =
       (if c = CHR ''{'' then
            (case skip_ws cs of [] \<Rightarrow> Fail
             | x # r \<Rightarrow> if x = CHR ''}'' then Done (JObj []) r else parse_members m [] (x # r))
          else if c = CHR ''['' then
            (case skip_ws cs of [] \<Rightarrow> Fail
             | x # r \<Rightarrow> if x = CHR '']'' then Done (JArr []) r else parse_elements m [] (x # r))
          else if c = dquote then
            (case parse_chars cs of None \<Rightarrow> Fail | Some (str, r) \<Rightarrow> Done (JStr str) r)
          else if c = CHR ''t'' then
            (case strip_prefix ''true'' s of None \<Rightarrow> Fail | Some r \<Rightarrow> Done (JBool True) r)
          else if c = CHR ''f'' then
            (case strip_prefix ''false'' s of None \<Rightarrow> Fail | Some r \<Rightarrow> Done (JBool False) r)
          else if c = CHR ''n'' then
            (case strip_prefix ''null'' s of None \<Rightarrow> Fail | Some r \<Rightarrow> Done JNull r)
          else
            (case parse_number s of None \<Rightarrow> Fail | Some (x, r) \<Rightarrow> Done (JNum x) r))"
      unfolding Cons by (simp only: parse_value.simps list.case)
    show ?thesis
      by (simp only: eq obj arr str t f n num split: if_split) simp
  qed
  have elems: "consumes s (parse_elements (Suc m) acc s)" if fuel: "2 * length s + 1 < Suc m" for acc s
  proof (cases "parse_value m s")
    case (Done v r)
    from fuel have "2 * length s < m" by simp
    from V [OF this] Done have r: "length r < length s" by simp
    show ?thesis
    proof (cases "skip_ws r")
      case Nil
      with Done show ?thesis by simp
    next
      case (Cons x r')
      then have r': "length r' < length r" by (rule skip_ws_Cons_length)
      have "length (skip_ws r') \<le> length r'" by (rule skip_ws_length)
      with r r' fuel have "2 * length (skip_ws r') + 1 < m" by simp
      note f = this
      from r r' skip_ws_length [of r'] have le: "length (skip_ws r') \<le> length s" by simp
      have "consumes s (parse_elements m (acc @ [v]) (skip_ws r'))"
        by (rule consumes_mono [OF E [OF f] le])
      with Done Cons r r' show ?thesis by simp
    qed
  next
    case Fail
    then show ?thesis by simp
  next
    case OutOfFuel
    from fuel have "2 * length s < m" by simp
    from V [OF this] OutOfFuel show ?thesis by simp
  qed
  have membs: "consumes s (parse_members (Suc m) acc s)" if fuel: "2 * length s + 1 < Suc m" for acc s
  proof (cases s)
    case Nil
    then show ?thesis by simp
  next
    case (Cons c cs)
    show ?thesis
    proof (cases "c = dquote")
      case False
      with Cons show ?thesis by simp
    next
      case True
      show ?thesis
      proof (cases "parse_chars cs")
        case None
        with Cons True show ?thesis by simp
      next
        case (Some kr)
        obtain k r where kr: "kr = (k, r)" by (cases kr)
        with Some have r: "length r < length cs" by (auto dest: parse_chars_shorter)
        show ?thesis
        proof (cases "skip_ws r")
          case Nil
          with Cons True Some kr show ?thesis by simp
        next
          case sk: (Cons y r1)
          then have r1: "length r1 < length r" by (rule skip_ws_Cons_length)
          show ?thesis
          proof (cases "y = CHR '':''")
            case False
            with Cons True Some kr sk show ?thesis by simp
          next
            case colon: True
            have l1: "length (skip_ws r1) \<le> length r1" by (rule skip_ws_length)
            with r r1 fuel Cons have f1: "2 * length (skip_ws r1) < m" by simp
            show ?thesis
            proof (cases "parse_value m (skip_ws r1)")
              case (Done v r2)
              with V [OF f1] have r2: "length r2 < length (skip_ws r1)" by simp
              show ?thesis
              proof (cases "skip_ws r2")
                case Nil
                with Cons True Some kr sk colon Done show ?thesis by simp
              next
                case s3: (Cons x r3)
                then have r3: "length r3 < length r2" by (rule skip_ws_Cons_length)
                have "length (skip_ws r3) \<le> length r3" by (rule skip_ws_length)
                with r r1 l1 r2 r3 fuel Cons have "2 * length (skip_ws r3) + 1 < m"
                  and le: "length (skip_ws r3) \<le> length s" "length r3 < length s" by simp_all
                note f = this(1)
                have "consumes s (parse_members m (put k v acc) (skip_ws r3))"
                  by (rule consumes_mono [OF M [OF f] le(1)])
                with Cons True Some kr sk colon Done s3 le show ?thesis by simp
              qed
            next
              case Fail
              with Cons True Some kr sk colon show ?thesis by simp
            next
              case OutOfFuel
              with V [OF f1] show ?thesis by simp
            qed
          qed
        qed
      qed
    qed
  qed
  from val elems membs show ?case by blast
qed

lemma JSON_parse_fuel: "parse_value (2 * length s + 1) (skip_ws s) \<noteq> OutOfFuel"
proof -
  have "2 * length (skip_ws s) < 2 * length s + 1"
    using skip_ws_length [of s] by simp
  with parse_fuel [of "2 * length s + 1"] have "consumes (skip_ws s) (parse_value (2 * length s + 1) (skip_ws s))"
    by blast
  then show ?thesis by auto
qed

subsection \<open>Printing and reading back a natural number\<close>

lemma of_char_digit_char: "n < 10 \<Longrightarrow> (of_char (digit_char n) :: nat) = 48 + n"
  by (simp add: digit_char_def)

lemma is_digit_digit_char: "n < 10 \<Longrightarrow> is_digit (digit_char n)"
  by (simp add: is_digit_def of_char_digit_char)

lemma digit_val_digit_char: "n < 10 \<Longrightarrow> digit_val (digit_char n) = n"
  by (simp add: digit_val_def of_char_digit_char)

lemma char_eq_nat: "(c = d) = ((of_char c :: nat) = of_char d)"
  by simp

lemma digit_char_zero: "n < 10 \<Longrightarrow> (digit_char n = CHR ''0'') = (n = 0)"
  by (simp add: char_eq_nat of_char_digit_char)

lemma show_nat_unfold:
  "n < 10 \<Longrightarrow> show_nat n = [digit_char n]"
  "\<not> n < 10 \<Longrightarrow> show_nat n = show_nat (n div 10) @ [digit_char (n mod 10)]"
  by (subst show_nat.simps, simp)+

lemma show_nat_digits: "c \<in> set (show_nat n) \<Longrightarrow> is_digit c"
proof (induction n rule: show_nat.induct)
  case (1 n)
  show ?case
  proof (cases "n < 10")
    case True
    with 1(2) show ?thesis
      by (simp add: show_nat_unfold(1) is_digit_digit_char)
  next
    case False
    with 1(2) have "c \<in> set (show_nat (n div 10)) \<or> c = digit_char (n mod 10)"
      by (auto simp: show_nat_unfold(2) [OF False])
    with 1(1) [OF False] show ?thesis
      by (auto simp: is_digit_digit_char)
  qed
qed

lemma show_nat_nonempty: "show_nat n \<noteq> []"
  by (cases "n < 10") (simp_all add: show_nat_unfold)

lemma show_nat_0: "show_nat 0 = ''0''"
  by (simp add: show_nat_unfold(1) digit_char_def char_eq_nat)

lemma hd_show_nat: "0 < n \<Longrightarrow> hd (show_nat n) \<noteq> CHR ''0''"
proof (induction n rule: show_nat.induct)
  case (1 n)
  show ?case
  proof (cases "n < 10")
    case True
    with 1(2) show ?thesis
      by (simp add: show_nat_unfold(1) digit_char_zero)
  next
    case False
    then have "0 < n div 10" by simp
    with 1(1) False have "hd (show_nat (n div 10)) \<noteq> CHR ''0''" by simp
    with False show ?thesis
      by (simp add: show_nat_unfold(2) [OF False] show_nat_nonempty)
  qed
qed

lemma nat_of_digits_snoc: "nat_of_digits (ds @ [c]) = 10 * nat_of_digits ds + digit_val c"
  by (simp add: nat_of_digits_def)

lemma nat_of_digits_show_nat: "nat_of_digits (show_nat n) = n"
proof (induction n rule: show_nat.induct)
  case (1 n)
  show ?case
  proof (cases "n < 10")
    case True
    then show ?thesis
      by (simp add: show_nat_unfold(1) nat_of_digits_def digit_val_digit_char)
  next
    case False
    with 1 show ?thesis
      by (simp add: show_nat_unfold(2) [OF False] nat_of_digits_snoc digit_val_digit_char)
  qed
qed

lemma num_end_not_digit: "num_end (c # cs) \<Longrightarrow> \<not> is_digit c"
  by (simp add: num_end_def)

lemma takeWhile_digits:
  assumes "num_end r"
  shows "takeWhile is_digit (show_nat n @ r) = show_nat n"
    and "dropWhile is_digit (show_nat n @ r) = r"
proof -
  have all: "\<forall>c \<in> set (show_nat n). is_digit c" by (simp add: show_nat_digits)
  have r: "takeWhile is_digit r = []" "dropWhile is_digit r = r"
    using assms by (cases r; simp add: num_end_def)+
  from all r show "takeWhile is_digit (show_nat n @ r) = show_nat n"
    by simp
  from all r show "dropWhile is_digit (show_nat n @ r) = r"
    by simp
qed

lemma int_part_show_nat:
  assumes "num_end r"
  shows "int_part (show_nat n @ r) = Some (show_nat n, r)"
proof (cases "n = 0")
  case True
  then show ?thesis by (simp add: show_nat_0 int_part_def)
next
  case False
  obtain c cs where cs: "show_nat n = c # cs"
    using show_nat_nonempty [of n] by (cases "show_nat n") auto
  with False hd_show_nat [of n] have "c \<noteq> CHR ''0''" by simp
  moreover from cs have "is_digit c" using show_nat_digits [of c n] by simp
  ultimately show ?thesis
    using takeWhile_digits [OF assms, of n] cs by (simp add: int_part_def)
qed

lemma frac_part_end: "num_end r \<Longrightarrow> frac_part r = Some ([], r)"
  by (cases r) (simp_all add: frac_part_def num_end_def)

lemma exp_part_end: "num_end r \<Longrightarrow> exp_part r = Some (0, r)"
  by (cases r) (simp_all add: exp_part_def num_end_def)

lemma parse_number_show_nat:
  assumes "num_end r"
  shows "parse_number (show_nat n @ r) = Some (of_nat n, r)"
proof -
  obtain c cs where cs: "show_nat n = c # cs"
    using show_nat_nonempty [of n] by (cases "show_nat n") auto
  then have "is_digit c" using show_nat_digits [of c n] by simp
  then have "c \<noteq> CHR ''-''" by (auto simp: is_digit_def)
  with cs have neg: "\<not> (show_nat n @ r \<noteq> [] \<and> hd (show_nat n @ r) = CHR ''-'')" by simp
  show ?thesis
    unfolding parse_number_def Let_def
    by (simp only: neg if_False int_part_show_nat [OF assms] frac_part_end [OF assms]
        exp_part_end [OF assms] option.case prod.case)
       (simp add: nat_of_digits_show_nat pow10_def)
qed

lemma number_to_string_of_nat: "number_to_string (of_nat n) = show_nat n"
proof -
  have "quotient_of (of_nat n) = (int n, 1)"
    using quotient_of_int [of "int n"] by simp
  then show ?thesis
    by (simp add: number_to_string_def)
qed

subsection \<open>Quoting and reading back a string\<close>

lemma hex_val_hex_char: "k < 16 \<Longrightarrow> hex_val (hex_char k) = Some k"
  by (auto simp: hex_val_def hex_char_def Let_def)

lemma hex4_low: "n < 256 \<Longrightarrow>
  hex4 (CHR ''0'') (CHR ''0'') (hex_char (n div 16)) (hex_char (n mod 16)) = Some n"
proof -
  assume "n < 256"
  then have "n div 16 < 16" by simp
  then have a: "hex_val (hex_char (n div 16)) = Some (n div 16)" by (rule hex_val_hex_char)
  have b: "hex_val (hex_char (n mod 16)) = Some (n mod 16)" by (rule hex_val_hex_char) simp
  have z: "hex_val (CHR ''0'') = Some 0" by (simp add: hex_val_def)
  show ?thesis by (simp add: hex4_def a b z)
qed

lemma utf8_low: "(of_char c :: nat) < 128 \<Longrightarrow> utf8 (of_char c) = [c]"
  by (simp add: utf8_def)

lemma parse_chars_quote_char:
  "parse_chars (quote_char c @ rest) = map_option (\<lambda>(s, r). (c # s, r)) (parse_chars rest)"
proof -
  consider (two) e where "quote_char c = [bslash, e]" "unescape e = Some c" "e \<noteq> CHR ''u''"
    | (hex) "quote_char c = [bslash, CHR ''u'', CHR ''0'', CHR ''0'',
               hex_char (of_char c div 16), hex_char (of_char c mod 16)]" "(of_char c :: nat) < 32"
    | (lit) "quote_char c = [c]" "c \<noteq> dquote" "c \<noteq> bslash" "\<not> (of_char c :: nat) < 32"
    unfolding quote_char_def unescape_def by (cases "c = CHR 0x08"; cases "c = CHR 0x09"; cases "c = CHR 0x0A";
      cases "c = CHR 0x0C"; cases "c = CHR 0x0D"; cases "c = dquote"; cases "c = bslash";
      cases "(of_char c :: nat) < 32"; simp)
  then show ?thesis
  proof cases
    case two
    then show ?thesis by simp
  next
    case hex
    then have "hex4 (CHR ''0'') (CHR ''0'') (hex_char (of_char c div 16)) (hex_char (of_char c mod 16))
                 = Some (of_char c)"
      by (intro hex4_low) simp
    moreover from hex have "utf8 (of_char c) = [c]" by (intro utf8_low) simp
    ultimately show ?thesis using hex(1) by simp
  next
    case lit
    then show ?thesis by simp
  qed
qed

lemma parse_chars_quoted:
  "parse_chars (concat (map quote_char s) @ dquote # r) = Some (s, r)"
  by (induction s) (simp_all add: parse_chars_quote_char)

subsection \<open>Printing and reading back a value\<close>

lemma skip_ws_Cons: "\<not> is_ws c \<Longrightarrow> skip_ws (c # t) = c # t"
  by (simp add: skip_ws_def)

lemma is_digit_not_special:
  assumes "is_digit c"
  shows "\<not> is_ws c" "c \<noteq> CHR ''{''" "c \<noteq> CHR ''[''" "c \<noteq> dquote" "c \<noteq> CHR ''t''"
    "c \<noteq> CHR ''f''" "c \<noteq> CHR ''n''" "c \<noteq> CHR '']''" "c \<noteq> CHR ''}''" "c \<noteq> CHR ''-''"
  using assms by (auto simp: is_digit_def is_ws_def)

text \<open>The first character of the text of a value.\<close>

lemma stringify_head:
  assumes "plain v"
  shows "\<exists>c t. JSON_stringify v = c # t \<and> \<not> is_ws c \<and> c \<noteq> CHR '']'' \<and> c \<noteq> CHR ''}''"
proof (cases v)
  case (JNum x)
  with assms obtain k where "x = of_nat k" by auto
  with JNum have s: "JSON_stringify v = show_nat k" by (simp add: number_to_string_of_nat)
  obtain c t where ct: "show_nat k = c # t"
    using show_nat_nonempty [of k] by (cases "show_nat k") auto
  then have "is_digit c" using show_nat_digits [of c k] by simp
  with s ct show ?thesis by (simp add: is_digit_not_special)
qed (simp_all add: is_ws_def quote_def)

lemma join_comma_head: "x = c # t \<Longrightarrow> \<exists>u. join_comma (x # xs) = c # u"
  by (cases xs) simp_all

lemma num_end_delims [simp]: "num_end (CHR '','' # r)" "num_end (CHR '']'' # r)" "num_end (CHR ''}'' # r)" "num_end []"
  by (simp_all add: num_end_def is_digit_def)

lemma not_ws_delims [simp]: "\<not> is_ws (CHR '','')" "\<not> is_ws (CHR '']'')" "\<not> is_ws (CHR ''}'')"
  "\<not> is_ws (CHR '':'')" "\<not> is_ws dquote"
  by (simp_all add: is_ws_def)

lemma parse_elements_join:
  assumes IH: "\<And>x r n. x \<in> set xs \<Longrightarrow> num_end r \<Longrightarrow> 2 * length (JSON_stringify x @ r) < n \<Longrightarrow>
                 parse_value n (JSON_stringify x @ r) = Done x r"
    and pl: "\<forall>x \<in> set xs. plain x"
    and ne: "xs \<noteq> []"
    and fuel: "2 * length (join_comma (map JSON_stringify xs) @ CHR '']'' # r) + 1 < n"
  shows "parse_elements n acc (join_comma (map JSON_stringify xs) @ CHR '']'' # r) = Done (JArr (acc @ xs)) r"
  using assms
proof (induction xs arbitrary: acc n)
  case Nil
  then show ?case by simp
next
  case (Cons x ys)
  from Cons.prems(4) obtain m where n: "n = Suc m" by (cases n) simp_all
  show ?case
  proof (cases ys)
    case Nil
    have "parse_value m (JSON_stringify x @ CHR '']'' # r) = Done x (CHR '']'' # r)"
      using Cons.prems(4) Nil n by (intro Cons.prems(1)) simp_all
    with Nil n show ?thesis by (simp add: skip_ws_Cons)
  next
    case (Cons y zs)
    let ?rest = "join_comma (map JSON_stringify ys) @ CHR '']'' # r"
    have unf: "join_comma (map JSON_stringify (x # ys)) @ CHR '']'' # r
                  = JSON_stringify x @ CHR '','' # ?rest"
      using Cons by simp
    have v: "parse_value m (JSON_stringify x @ CHR '','' # ?rest) = Done x (CHR '','' # ?rest)"
      using Cons.prems(4) n unfolding unf by (intro Cons.prems(1)) simp_all
    from Cons.prems(2) Cons have "plain y" by simp
    from stringify_head [OF this] obtain c t where "JSON_stringify y = c # t" "\<not> is_ws c" by blast
    with join_comma_head [of "JSON_stringify y" c t "map JSON_stringify zs"] Cons
    obtain u where "?rest = c # u @ CHR '']'' # r" by auto
    with \<open>\<not> is_ws c\<close> have sk: "skip_ws ?rest = ?rest" by (simp add: skip_ws_Cons)
    have "parse_elements m (acc @ [x]) ?rest = Done (JArr ((acc @ [x]) @ ys)) r"
    proof (rule Cons.IH)
      show "\<And>x' r n. x' \<in> set ys \<Longrightarrow> num_end r \<Longrightarrow> 2 * length (JSON_stringify x' @ r) < n \<Longrightarrow>
              parse_value n (JSON_stringify x' @ r) = Done x' r"
        using Cons.prems(1) by simp
      show "\<forall>x \<in> set ys. plain x" using Cons.prems(2) by simp
      show "ys \<noteq> []" using Cons by simp
      show "2 * length ?rest + 1 < m" using Cons.prems(4) n unfolding unf by simp
    qed
    with v sk n show ?thesis unfolding unf by (simp add: skip_ws_Cons)
  qed
qed

lemma put_fresh: "k \<notin> fst ` set acc \<Longrightarrow> put k v acc = acc @ [(k, v)]"
  by (induction acc) auto

lemma skip_ws_stringify: "plain v \<Longrightarrow> skip_ws (JSON_stringify v @ r) = JSON_stringify v @ r"
  using stringify_head [of v] by (auto simp: skip_ws_Cons)

lemma parse_members_join:
  assumes IH: "\<And>p r n. p \<in> set ps \<Longrightarrow> num_end r \<Longrightarrow> 2 * length (JSON_stringify (snd p) @ r) < n \<Longrightarrow>
                 parse_value n (JSON_stringify (snd p) @ r) = Done (snd p) r"
    and pl: "\<forall>p \<in> set ps. plain (snd p)"
    and ne: "ps \<noteq> []"
    and dist: "distinct (map fst (acc @ ps))"
    and fuel: "2 * length (join_comma (map (\<lambda>(k, v). quote k @ '':'' @ JSON_stringify v) ps) @ CHR ''}'' # r) + 1 < n"
  shows "parse_members n acc (join_comma (map (\<lambda>(k, v). quote k @ '':'' @ JSON_stringify v) ps) @ CHR ''}'' # r)
           = Done (JObj (acc @ ps)) r"
  using assms
proof (induction ps arbitrary: acc n)
  case Nil
  then show ?case by simp
next
  case (Cons p qs)
  obtain k v where p: "p = (k, v)" by (cases p)
  from Cons.prems(5) obtain m where n: "n = Suc m" by (cases n) simp_all
  let ?body = "concat (map quote_char k)"
  from Cons.prems(2) p have plv: "plain v" by simp
  from Cons.prems(4) p have fresh: "k \<notin> fst ` set acc" by auto
  have key: "parse_chars (?body @ dquote # t) = Some (k, t)" for t
    by (rule parse_chars_quoted)
  have val: "parse_value m (JSON_stringify v @ t) = Done v t"
    if "num_end t" "2 * length (JSON_stringify v @ t) < m" for t
    using Cons.prems(1) [of p t m] p that by simp
  show ?case
  proof (cases qs)
    case Nil
    have unf: "join_comma (map (\<lambda>(k, v). quote k @ '':'' @ JSON_stringify v) (p # qs)) @ CHR ''}'' # r
                 = dquote # ?body @ dquote # CHR '':'' # JSON_stringify v @ CHR ''}'' # r"
      using Nil p by (simp add: quote_def)
    have "parse_value m (JSON_stringify v @ CHR ''}'' # r) = Done v (CHR ''}'' # r)"
      using Cons.prems(5) n unfolding unf by (intro val) simp_all
    with Nil n p fresh show ?thesis
      unfolding unf by (simp add: key skip_ws_Cons skip_ws_stringify [OF plv] put_fresh)
  next
    case (Cons q zs)
    let ?rest = "join_comma (map (\<lambda>(k, v). quote k @ '':'' @ JSON_stringify v) qs) @ CHR ''}'' # r"
    have unf: "join_comma (map (\<lambda>(k, v). quote k @ '':'' @ JSON_stringify v) (p # qs)) @ CHR ''}'' # r
                 = dquote # ?body @ dquote # CHR '':'' # JSON_stringify v @ CHR '','' # ?rest"
      using Cons p by (simp add: quote_def)
    have v: "parse_value m (JSON_stringify v @ CHR '','' # ?rest) = Done v (CHR '','' # ?rest)"
      using Cons.prems(5) n unfolding unf by (intro val) simp_all
    obtain k' v' where q: "q = (k', v')" by (cases q)
    with Cons obtain u where "?rest = dquote # u"
      using join_comma_head [of "quote k' @ '':'' @ JSON_stringify v'" dquote _
          "map (\<lambda>(k, v). quote k @ '':'' @ JSON_stringify v) zs"]
      by (auto simp: quote_def)
    then have sk: "skip_ws ?rest = ?rest" by (simp add: skip_ws_Cons)
    have "parse_members m (acc @ [p]) ?rest = Done (JObj ((acc @ [p]) @ qs)) r"
    proof (rule Cons.IH)
      show "\<And>p' r n. p' \<in> set qs \<Longrightarrow> num_end r \<Longrightarrow> 2 * length (JSON_stringify (snd p') @ r) < n \<Longrightarrow>
              parse_value n (JSON_stringify (snd p') @ r) = Done (snd p') r"
        using Cons.prems(1) by simp
      show "\<forall>p \<in> set qs. plain (snd p)" using Cons.prems(2) by simp
      show "qs \<noteq> []" using Cons by simp
      show "distinct (map fst ((acc @ [p]) @ qs))" using Cons.prems(4) by simp
      show "2 * length ?rest + 1 < m" using Cons.prems(5) n unfolding unf by simp
    qed
    with v sk n p fresh show ?thesis
      unfolding unf by (simp add: key skip_ws_Cons skip_ws_stringify [OF plv] put_fresh)
  qed
qed

theorem parse_value_stringify:
  "plain v \<Longrightarrow> num_end r \<Longrightarrow> 2 * length (JSON_stringify v @ r) < n \<Longrightarrow>
     parse_value n (JSON_stringify v @ r) = Done v r"
proof (induction v arbitrary: r n)
  case JNull
  then obtain m where "n = Suc m" by (cases n) simp_all
  then show ?case by simp
next
  case (JBool b)
  then obtain m where "n = Suc m" by (cases n) simp_all
  then show ?case by simp
next
  case (JNum x)
  then obtain m where n: "n = Suc m" by (cases n) simp_all
  from JNum(1) obtain k where x: "x = of_nat k" by auto
  obtain c t where ct: "show_nat k = c # t"
    using show_nat_nonempty [of k] by (cases "show_nat k") auto
  then have "is_digit c" using show_nat_digits [of c k] by simp
  note sp = is_digit_not_special [OF this]
  have "parse_number (show_nat k @ r) = Some (of_nat k, r)"
    using JNum(2) by (rule parse_number_show_nat)
  with ct have "parse_number (c # t @ r) = Some (of_nat k, r)" by simp
  with n x ct sp show ?case
    by (simp add: number_to_string_of_nat)
next
  case (JStr s)
  then obtain m where "n = Suc m" by (cases n) simp_all
  then show ?case by (simp add: quote_def parse_chars_quoted)
next
  case (JArr xs)
  then obtain m where n: "n = Suc m" by (cases n) simp_all
  show ?case
  proof (cases xs)
    case Nil
    with n show ?thesis by (simp add: skip_ws_Cons)
  next
    case (Cons y ys)
    let ?rest = "join_comma (map JSON_stringify xs) @ CHR '']'' # r"
    from JArr(2) Cons have "plain y" by simp
    from stringify_head [OF this] obtain c t
      where "JSON_stringify y = c # t" "\<not> is_ws c" "c \<noteq> CHR '']''" by blast
    with join_comma_head [of "JSON_stringify y" c t "map JSON_stringify ys"] Cons
    obtain u where u: "?rest = c # u" by auto
    have "parse_elements m [] ?rest = Done (JArr ([] @ xs)) r"
    proof (rule parse_elements_join)
      show "\<And>x r n. x \<in> set xs \<Longrightarrow> num_end r \<Longrightarrow> 2 * length (JSON_stringify x @ r) < n \<Longrightarrow>
              parse_value n (JSON_stringify x @ r) = Done x r"
        using JArr(1,2) by simp
      show "\<forall>x \<in> set xs. plain x" using JArr(2) by simp
      show "xs \<noteq> []" using Cons by simp
      show "2 * length ?rest + 1 < m" using JArr(4) n by simp
    qed
    with u \<open>\<not> is_ws c\<close> \<open>c \<noteq> CHR '']''\<close> n show ?thesis
      by (simp add: skip_ws_Cons)
  qed
next
  case (JObj ps)
  then obtain m where n: "n = Suc m" by (cases n) simp_all
  show ?case
  proof (cases ps)
    case Nil
    with n show ?thesis by (simp add: skip_ws_Cons)
  next
    case (Cons q qs)
    let ?rest = "join_comma (map (\<lambda>(k, v). quote k @ '':'' @ JSON_stringify v) ps) @ CHR ''}'' # r"
    obtain k' v' where q: "q = (k', v')" by (cases q)
    with Cons obtain u where u: "?rest = dquote # u"
      using join_comma_head [of "quote k' @ '':'' @ JSON_stringify v'" dquote _
          "map (\<lambda>(k, v). quote k @ '':'' @ JSON_stringify v) qs"]
      by (auto simp: quote_def)
    have "parse_members m [] ?rest = Done (JObj ([] @ ps)) r"
    proof (rule parse_members_join)
      show "\<And>p r n. p \<in> set ps \<Longrightarrow> num_end r \<Longrightarrow> 2 * length (JSON_stringify (snd p) @ r) < n \<Longrightarrow>
              parse_value n (JSON_stringify (snd p) @ r) = Done (snd p) r"
      proof -
        fix p r n
        assume p: "p \<in> set ps" and "num_end r" "2 * length (JSON_stringify (snd p) @ r) < n"
        moreover from p JObj(2) have "plain (snd p)" by simp
        moreover have "snd p \<in> Basic_BNFs.snds p" by (cases p) simp
        ultimately show "parse_value n (JSON_stringify (snd p) @ r) = Done (snd p) r"
          using JObj(1) by blast
      qed
      show "\<forall>p \<in> set ps. plain (snd p)" using JObj(2) by simp
      show "ps \<noteq> []" using Cons by simp
      show "distinct (map fst ([] @ ps))" using JObj(2) by simp
      show "2 * length ?rest + 1 < m" using JObj(4) n by simp
    qed
    with u n show ?thesis
      by (simp add: skip_ws_Cons)
  qed
qed

theorem JSON_parse_stringify:
  assumes "plain v"
  shows "JSON_parse (JSON_stringify v) = Inr v"
proof -
  have sk: "skip_ws (JSON_stringify v) = JSON_stringify v"
    using skip_ws_stringify [OF assms, of "[]"] by simp
  have "parse_value (2 * length (JSON_stringify v) + 1) (JSON_stringify v @ []) = Done v []"
    using assms by (intro parse_value_stringify) simp_all
  then have pv: "parse_value (2 * length (JSON_stringify v) + 1) (JSON_stringify v) = Done v []"
    by (simp only: append_Nil2)
  show ?thesis
    unfolding JSON_parse_def sk pv by (simp add: skip_ws_def)
qed

section \<open>Properties of saving and loading\<close>

text \<open>A document is a plain value, and its text is not empty: it starts with a brace.\<close>

lemma plain_toJS: "plain (toJS d)"
  by (auto simp: toJS_def personal_toJS_def experience_toJS_def education_toJS_def)

lemma stringify_toJS_nonempty: "JSON_stringify (toJS d) \<noteq> []"
  by (simp add: toJS_def)

lemma map_of_put: "map_of (put k v kvs) k = Some v"
  by (induction kvs) auto

lemma getItem_setItem: "setItem st k v = Inr st' \<Longrightarrow> getItem st' k = Inr (Some v)"
  by (auto simp: setItem_def getItem_def map_of_put split: if_splits)

lemma load_after_save:
  assumes "save d st = Inr st'"
  shows "load t1 st' = Inr (toJS d)"
proof -
  from assms have "getItem st' draft_key = Inr (Some (JSON_stringify (toJS d)))"
    unfolding save_def by (rule getItem_setItem)
  moreover have "JSON_parse (JSON_stringify (toJS d)) = Inr (toJS d)"
    using plain_toJS by (rule JSON_parse_stringify)
  ultimately show ?thesis
    by (simp add: load_def load_body_def stringify_toJS_nonempty)
qed

text \<open>
  Two documents that differ have different values: a value stands for one document at
  most.
\<close>

lemma personal_toJS_inj: "personal_toJS p = personal_toJS q \<Longrightarrow> p = q"
  by (cases p; cases q) (simp add: personal_toJS_def)

lemma experience_toJS_inj: "inj experience_toJS"
proof (rule injI)
  fix a b
  assume "experience_toJS a = experience_toJS b"
  then show "a = b"
    by (cases a; cases b) (simp add: experience_toJS_def)
qed

lemma education_toJS_inj: "inj education_toJS"
proof (rule injI)
  fix a b
  assume "education_toJS a = education_toJS b"
  then show "a = b"
    by (cases a; cases b) (simp add: education_toJS_def)
qed

lemma toJS_inj:
  assumes "toJS d = toJS d'"
  shows "d = d'"
proof -
  have str: "inj JStr" by (rule injI) simp
  from assms have "personal d = personal d'" "summary d = summary d'" "template d = template d'"
    and "map JStr (skills d) = map JStr (skills d')"
    and "map experience_toJS (experience d) = map experience_toJS (experience d')"
    and "map education_toJS (education d) = map education_toJS (education d')"
    by (simp_all add: toJS_def personal_toJS_inj)
  then have "personal d = personal d'" "summary d = summary d'" "template d = template d'"
    "skills d = skills d'" "experience d = experience d'" "education d = education d'"
    by (simp_all add: inj_map_eq_map [OF str] inj_map_eq_map [OF experience_toJS_inj]
        inj_map_eq_map [OF education_toJS_inj])
  then show ?thesis by simp
qed

text \<open>
  C5. For every document reached from the default document by a sequence of operations,
  once \<^verbatim>\<open>save\<close> has written it (\<^verbatim>\<open>setItem\<close> did not raise), \<^verbatim>\<open>load\<close> returns that document:
  the value it returns is the value of the saved document, and it is the value of a
  document \<open>d\<close> only when \<open>d\<close> is the saved document. \<open>load_after_save\<close> is the first
  part for any document at all.
\<close>

theorem save_then_load_roundtrip:
  assumes "save (run t0 ms (defaultData t0)) st = Inr st'"
  shows "load t1 st' = Inr (toJS (run t0 ms (defaultData t0)))
         \<and> (load t1 st' = Inr (toJS d)) = (d = run t0 ms (defaultData t0))"
proof -
  from assms have l: "load t1 st' = Inr (toJS (run t0 ms (defaultData t0)))"
    by (rule load_after_save)
  moreover have "(toJS (run t0 ms (defaultData t0)) = toJS d) = (d = run t0 ms (defaultData t0))"
    using toJS_inj [of "run t0 ms (defaultData t0)" d] by auto
  ultimately show ?thesis by simp
qed






text \<open>
  A document reached by four operations is saved and loaded back; what is loaded is not
  the value of the default document, which differs from it.
\<close>

theorem save_then_load_roundtrip_witness:
  "save (run 0 [SetSummary ''PM'', ClearSkills, RemoveEducation 1, AddExperience 5] (defaultData 0))
        \<lparr>available = True, quota = 5000, items = []\<rparr>
     = Inr \<lparr>available = True, quota = 5000, items = [(''wf_resume_draft'',
           JSON_stringify (toJS (run 0 [SetSummary ''PM'', ClearSkills, RemoveEducation 1, AddExperience 5] (defaultData 0))))]\<rparr>
   \<and> load 0 \<lparr>available = True, quota = 5000, items = [(''wf_resume_draft'',
           JSON_stringify (toJS (run 0 [SetSummary ''PM'', ClearSkills, RemoveEducation 1, AddExperience 5] (defaultData 0))))]\<rparr>
     = Inr (toJS (run 0 [SetSummary ''PM'', ClearSkills, RemoveEducation 1, AddExperience 5] (defaultData 0)))
   \<and> load 0 \<lparr>available = True, quota = 5000, items = [(''wf_resume_draft'',
           JSON_stringify (toJS (run 0 [SetSummary ''PM'', ClearSkills, RemoveEducation 1, AddExperience 5] (defaultData 0))))]\<rparr>
     \<noteq> Inr (toJS (defaultData 0))"
proof -
  let ?d = "run 0 [SetSummary ''PM'', ClearSkills, RemoveEducation 1, AddExperience 5] (defaultData 0)"
  let ?st' = "\<lparr>available = True, quota = 5000, items = [(''wf_resume_draft'', JSON_stringify (toJS ?d))]\<rparr>"
  have len: "length (JSON_stringify (toJS ?d)) \<le> 4000"
    by code_simp
  then have sv: "save ?d \<lparr>available = True, quota = 5000, items = []\<rparr> = Inr ?st'"
    by (simp add: save_def setItem_def used_def draft_key_def)
  have "summary ?d = ''PM''"
    by (simp add: setSummary_def clearSkills_def removeEducation_def addExperience_def)
  then have ne: "defaultData 0 \<noteq> ?d"
    by (auto simp: defaultData_def)
  note rt = save_then_load_roundtrip [OF sv, of 0 "defaultData 0"]
  from rt have same: "load 0 ?st' = Inr (toJS ?d)"
    by (rule conjunct1)
  from rt have "(load 0 ?st' = Inr (toJS (defaultData 0))) = (defaultData 0 = ?d)"
    by (rule conjunct2)
  with ne have other: "load 0 ?st' \<noteq> Inr (toJS (defaultData 0))"
    by blast
  from sv same other show ?thesis
    by (intro conjI)
qed

end
